theory Spec2Isabelle
  imports Complex_Main
begin

section \<open>Python values\<close>

text \<open>
  A Python \<open>str\<close> is a sequence of Unicode code points (lone surrogates included), a
  \<open>bytes\<close> object a sequence of integers below 256. Both are lists of naturals here;
  \<open>lit\<close> turns an ASCII literal of the source into its code points.
\<close>

type_synonym pystr = "nat list"
type_synonym pybytes = "nat list"

definition lit :: "string \<Rightarrow> pystr" where
  "lit s = map of_char s"

definition is_pystr :: "pystr \<Rightarrow> bool" where
  "is_pystr s = list_all (\<lambda>c. c < 0x110000) s"

text \<open>
  The values \<open>json.loads\<close> and the Lambda runtime build: \<open>None\<close>, \<open>bool\<close>, \<open>int\<close>,
  \<open>float\<close>, \<open>str\<close>, \<open>list\<close> and \<open>dict\<close> with \<open>str\<close> keys. A dict is an association list
  read with \<open>map_of\<close>.
\<close>

datatype json =
    JNull
  | JBool bool
  | JInt int
  | JFloat real
  | JStr pystr
  | JList "json list"
  | JDict "(pystr \<times> json) list"

text \<open>
  Exceptions carry their class and the text \<open>str(e)\<close> gives. All classes are subclasses
  of \<open>Exception\<close>. \<open>ClientError\<close> stands for whatever the boto3 and OpenAI clients raise.
\<close>

datatype exc_class =
    KeyError | IndexError | TypeError | AttributeError | UnboundLocalError
  | UnicodeEncodeError | JSONDecodeError | ParamValidationError | ClientError
  | Exception

datatype exc = Exc exc_class pystr

fun str_exc :: "exc \<Rightarrow> pystr" where
  "str_exc (Exc c m) = m"

fun type_name :: "json \<Rightarrow> pystr" where
  "type_name JNull = lit ''NoneType''"
| "type_name (JBool b) = lit ''bool''"
| "type_name (JInt i) = lit ''int''"
| "type_name (JFloat x) = lit ''float''"
| "type_name (JStr s) = lit ''str''"
| "type_name (JList xs) = lit ''list''"
| "type_name (JDict kvs) = lit ''dict''"

definition not_subscriptable :: "json \<Rightarrow> exc" where
  "not_subscriptable v =
     Exc TypeError (lit [CHR 0x27] @ type_name v @ lit [CHR 0x27] @ lit '' object is not subscriptable'')"

text \<open>
  \<open>obj['k']\<close> for a literal key \<open>k\<close> of the source (the message of the \<open>KeyError\<close> is the
  key's \<open>repr\<close>, which for these literals is the key in single quotes).
\<close>

fun subscript_key :: "json \<Rightarrow> pystr \<Rightarrow> exc + json" where
  "subscript_key (JDict kvs) k =
     (case map_of kvs k of
        Some v \<Rightarrow> Inr v
      | None \<Rightarrow> Inl (Exc KeyError (lit [CHR 0x27] @ k @ lit [CHR 0x27])))"
| "subscript_key (JList xs) k =
     Inl (Exc TypeError (lit ''list indices must be integers or slices, not str''))"
| "subscript_key (JStr s) k =
     Inl (Exc TypeError (lit ''string indices must be integers, not '' @ lit [CHR 0x27] @ lit ''str'' @ lit [CHR 0x27]))"
| "subscript_key v k = Inl (not_subscriptable v)"

text \<open>\<open>obj[0]\<close>. The keys of a dict are strings, so \<open>0\<close> is never one of them.\<close>

fun subscript_0 :: "json \<Rightarrow> exc + json" where
  "subscript_0 (JDict kvs) = Inl (Exc KeyError (lit ''0''))"
| "subscript_0 (JList []) = Inl (Exc IndexError (lit ''list index out of range''))"
| "subscript_0 (JList (x # xs)) = Inr x"
| "subscript_0 (JStr []) = Inl (Exc IndexError (lit ''string index out of range''))"
| "subscript_0 (JStr (c # cs)) = Inr (JStr [c])"
| "subscript_0 v = Inl (not_subscriptable v)"

section \<open>UTF-8\<close>

definition is_surrogate :: "nat \<Rightarrow> bool" where
  "is_surrogate c \<longleftrightarrow> 0xD800 \<le> c \<and> c \<le> 0xDFFF"

definition is_cont :: "nat \<Rightarrow> bool" where
  "is_cont b \<longleftrightarrow> 0x80 \<le> b \<and> b < 0xC0"

fun utf8_encode_char :: "nat \<Rightarrow> pybytes" where
  "utf8_encode_char c =
     (if c < 0x80 then [c]
      else if c < 0x800 then [0xC0 + c div 64, 0x80 + c mod 64]
      else if c < 0x10000 then [0xE0 + c div 4096, 0x80 + c div 64 mod 64, 0x80 + c mod 64]
      else [0xF0 + c div 262144, 0x80 + c div 4096 mod 64, 0x80 + c div 64 mod 64, 0x80 + c mod 64])"

fun decimal :: "nat \<Rightarrow> pystr" where
  "decimal n = (if n < 10 then [48 + n] else decimal (n div 10) @ [48 + n mod 10])"

definition hexdigit :: "nat \<Rightarrow> nat" where
  "hexdigit d = (if d < 10 then 48 + d else 87 + d)"

text \<open>
  \<open>s.encode("utf-8")\<close>: a lone surrogate raises \<open>UnicodeEncodeError\<close>, whose range is the
  run of surrogates starting at the first one.
\<close>

definition surrogates_not_allowed :: "pystr \<Rightarrow> exc" where
  "surrogates_not_allowed s =
     (let pre = takeWhile (\<lambda>c. \<not> is_surrogate c) s;
          run = takeWhile is_surrogate (dropWhile (\<lambda>c. \<not> is_surrogate c) s);
          c = hd run;
          start = length pre
      in Exc UnicodeEncodeError
           (lit [CHR 0x27] @ lit ''utf-8'' @ lit [CHR 0x27] @ lit '' codec can'' @ lit [CHR 0x27] @ lit ''t encode '' @
            (if length run = 1
             then lit ''character '' @ lit [CHR 0x27, CHR 0x5C] @ lit ''u'' @
                  [hexdigit (c div 4096), hexdigit (c div 256 mod 16), hexdigit (c div 16 mod 16), hexdigit (c mod 16)] @
                  lit [CHR 0x27] @ lit '' in position '' @ decimal start
             else lit ''characters in position '' @ decimal start @ lit ''-'' @ decimal (start + length run - 1)) @
            lit '': surrogates not allowed''))"

definition str_encode_utf8 :: "pystr \<Rightarrow> exc + pybytes" where
  "str_encode_utf8 s =
     (if list_ex is_surrogate s then Inl (surrogates_not_allowed s)
      else Inr (concat (map utf8_encode_char s)))"

text \<open>
  One step of the decoder on a non-empty input: either a code point and the number of
  bytes it took, or the number of bytes of the ill-formed range. The two error modes
  differ only in what they do with that range.
\<close>

datatype utf8_step = Decoded nat nat | Invalid nat

fun utf8_next :: "pybytes \<Rightarrow> utf8_step" where
  "utf8_next [] = Invalid 0"
| "utf8_next (b0 # bs) =
     (if b0 < 0x80 then Decoded b0 1
      else if b0 < 0xC2 then Invalid 1
      else if b0 < 0xE0 then
        (case bs of
           [] \<Rightarrow> Invalid 1
         | b1 # bs1 \<Rightarrow>
             if \<not> is_cont b1 then Invalid 1
             else Decoded ((b0 - 0xC0) * 64 + (b1 - 0x80)) 2)
      else if b0 < 0xF0 then
        (case bs of
           [] \<Rightarrow> Invalid 1
         | b1 # bs1 \<Rightarrow>
             if \<not> is_cont b1 \<or> (b0 = 0xE0 \<and> b1 < 0xA0) \<or> (b0 = 0xED \<and> 0xA0 \<le> b1) then Invalid 1
             else
               (case bs1 of
                  [] \<Rightarrow> Invalid 2
                | b2 # bs2 \<Rightarrow>
                    if \<not> is_cont b2 then Invalid 2
                    else Decoded ((b0 - 0xE0) * 4096 + (b1 - 0x80) * 64 + (b2 - 0x80)) 3))
      else if b0 < 0xF5 then
        (case bs of
           [] \<Rightarrow> Invalid 1
         | b1 # bs1 \<Rightarrow>
             if \<not> is_cont b1 \<or> (b0 = 0xF0 \<and> b1 < 0x90) \<or> (b0 = 0xF4 \<and> 0x90 \<le> b1) then Invalid 1
             else
               (case bs1 of
                  [] \<Rightarrow> Invalid 2
                | b2 # bs2 \<Rightarrow>
                    if \<not> is_cont b2 then Invalid 2
                    else
                      (case bs2 of
                         [] \<Rightarrow> Invalid 3
                       | b3 # bs3 \<Rightarrow>
                           if \<not> is_cont b3 then Invalid 3
                           else Decoded ((b0 - 0xF0) * 262144 + (b1 - 0x80) * 4096
                                           + (b2 - 0x80) * 64 + (b3 - 0x80)) 4)))
      else Invalid 1)"

text \<open>\<open>bs.decode("utf-8")\<close>: \<open>None\<close> is \<open>UnicodeDecodeError\<close>.\<close>

fun bytes_decode_utf8 :: "pybytes \<Rightarrow> pystr option" where
  "bytes_decode_utf8 [] = Some []"
| "bytes_decode_utf8 (b # bs) =
     (case utf8_next (b # bs) of
        Invalid n \<Rightarrow> None
      | Decoded c n \<Rightarrow> map_option ((#) c) (bytes_decode_utf8 (drop (n - 1) bs)))"

text \<open>\<open>bs.decode("utf-8", "replace")\<close>: every ill-formed range becomes U+FFFD.\<close>

fun bytes_decode_utf8_replace :: "pybytes \<Rightarrow> pystr" where
  "bytes_decode_utf8_replace [] = []"
| "bytes_decode_utf8_replace (b # bs) =
     (case utf8_next (b # bs) of
        Invalid n \<Rightarrow> 0xFFFD # bytes_decode_utf8_replace (drop (n - 1) bs)
      | Decoded c n \<Rightarrow> c # bytes_decode_utf8_replace (drop (n - 1) bs))"

section \<open>\<open>urllib.parse.unquote_plus\<close>\<close>

definition is_hexdig :: "nat \<Rightarrow> bool" where
  "is_hexdig c \<longleftrightarrow> (48 \<le> c \<and> c \<le> 57) \<or> (65 \<le> c \<and> c \<le> 70) \<or> (97 \<le> c \<and> c \<le> 102)"

definition hexval :: "nat \<Rightarrow> nat" where
  "hexval c = (if c \<le> 57 then c - 48 else if c \<le> 70 then c - 55 else c - 87)"

text \<open>
  \<open>unquote_to_bytes\<close> on a run of ASCII characters: the library splits the run at every
  \<open>%\<close> and turns an item that starts with two hexadecimal digits into one byte, leaving
  the \<open>%\<close> in front of any other item. Read from left to right, that is: a \<open>%\<close> followed
  by two hexadecimal digits is one byte, and every other character is itself.
\<close>

fun unquote_to_bytes :: "pystr \<Rightarrow> pybytes" where
  "unquote_to_bytes (c # h1 # h2 # rest) =
     (if c = 37 \<and> is_hexdig h1 \<and> is_hexdig h2
      then (hexval h1 * 16 + hexval h2) # unquote_to_bytes rest
      else c # unquote_to_bytes (h1 # h2 # rest))"
| "unquote_to_bytes (c # cs) = c # unquote_to_bytes cs"
| "unquote_to_bytes [] = []"

definition is_ascii :: "nat \<Rightarrow> bool" where
  "is_ascii c \<longleftrightarrow> c < 0x80"

text \<open>The maximal runs of ASCII and of non-ASCII characters, in order.\<close>

fun ascii_runs :: "pystr \<Rightarrow> (bool \<times> pystr) list" where
  "ascii_runs [] = []"
| "ascii_runs (c # cs) =
     (case ascii_runs cs of
        [] \<Rightarrow> [(is_ascii c, [c])]
      | (a, r) # rest \<Rightarrow>
          if a = is_ascii c then (a, c # r) # rest
          else (is_ascii c, [c]) # (a, r) # rest)"

text \<open>
  \<open>unquote(string)\<close> with the defaults \<open>encoding='utf-8'\<close>, \<open>errors='replace'\<close>: the escapes
  of each ASCII run are turned into bytes and the run is decoded; the characters in
  between are kept.
\<close>

definition unquote :: "pystr \<Rightarrow> pystr" where
  "unquote s =
     (if 37 \<notin> set s then s
      else concat (map (\<lambda>(a, r). if a then bytes_decode_utf8_replace (unquote_to_bytes r) else r)
                       (ascii_runs s)))"

definition unquote_plus :: "pystr \<Rightarrow> pystr" where
  "unquote_plus s = unquote (map (\<lambda>c. if c = 43 then 32 else c) s)"

text \<open>
  \<open>unquote_plus(v)\<close> for a value of any type: its first step is \<open>v.replace('+', ' ')\<close>,
  which only a \<open>str\<close> has.
\<close>

fun unquote_plus_value :: "json \<Rightarrow> exc + pystr" where
  "unquote_plus_value (JStr s) = Inr (unquote_plus s)"
| "unquote_plus_value v =
     Inl (Exc AttributeError (lit [CHR 0x27] @ type_name v @ lit [CHR 0x27] @ lit '' object has no attribute ''
            @ lit [CHR 0x27] @ lit ''replace'' @ lit [CHR 0x27]))"

section \<open>The services the handler talks to\<close>

text \<open>
  Everything the handler does not compute itself is an answer of its environment: the
  random job suffix, the outcome of every request to Transcribe, S3 and OpenAI, and the
  library functions whose tables are not part of the program (\<open>str.lower\<close>,
  \<open>json.loads\<close>). The answer to a request is its value, or the exception it raises.
  \<^item> \<open>get_transcription_job env i\<close> is the answer to the \<open>i\<close>-th status query, counted
    from 0: the value of \<open>status['TranscriptionJob']['TranscriptionJobStatus']\<close>, or the
    exception raised.
  \<^item> \<open>chat_completions_create env text\<close> is the value of
    \<open>response.choices[0].message.content\<close> (a \<open>str\<close> or \<open>None\<close>), or the exception raised
    on the way to it.
  \<^item> \<open>param_validation env v\<close> is the \<open>ParamValidationError\<close> boto3 raises, before it
    sends anything, for a bucket name \<open>v\<close> that is not a \<open>str\<close>.
\<close>

record env =
  uuid4_hex :: pystr
  str_lower :: "pystr \<Rightarrow> pystr"
  json_loads :: "pybytes \<Rightarrow> exc + json"
  param_validation :: "json \<Rightarrow> exc"
  start_transcription_job :: "exc + unit"
  get_transcription_job :: "nat \<Rightarrow> exc + pystr"
  get_object_fault :: "exc + unit"
  chat_completions_create :: "json \<Rightarrow> exc + pystr option"
  put_object_fault :: "exc + unit"

text \<open>The requests the handler makes, in the order it makes them.\<close>

datatype call =
    StartTranscriptionJob pystr pystr pystr pystr pystr pystr
  | GetTranscriptionJob pystr
  | Sleep nat
  | GetObject pystr pystr
  | ChatCompletionsCreate pystr pystr json nat
  | PutObject pystr pystr pybytes pystr

record s3_object =
  body :: pybytes
  content_type :: pystr

text \<open>
  The state a run threads through: the requests made so far and the object store, keyed
  by bucket and key. The store is the one the handler sees from its first read on; what
  the transcription service wrote before that read is in it.
\<close>

record state =
  calls :: "call list"
  objects :: "pystr \<times> pystr \<Rightarrow> s3_object option"

type_synonym 'a prog = "state \<Rightarrow> (exc + 'a) \<times> state"

definition ret :: "'a \<Rightarrow> 'a prog" where
  "ret x = (\<lambda>s. (Inr x, s))"

definition raise :: "exc \<Rightarrow> 'a prog" where
  "raise e = (\<lambda>s. (Inl e, s))"

definition lift :: "exc + 'a \<Rightarrow> 'a prog" where
  "lift r = (\<lambda>s. (r, s))"

definition then_do :: "'a prog \<Rightarrow> ('a \<Rightarrow> 'b prog) \<Rightarrow> 'b prog" where
  "then_do m f = (\<lambda>s. case m s of (Inl e, s') \<Rightarrow> (Inl e, s') | (Inr x, s') \<Rightarrow> f x s')"

definition request :: "call \<Rightarrow> exc + 'a \<Rightarrow> 'a prog" where
  "request c answer = (\<lambda>s. (answer, s\<lparr>calls := calls s @ [c]\<rparr>))"

definition no_such_key :: exc where
  "no_such_key = Exc ClientError
     (lit ''An error occurred (NoSuchKey) when calling the GetObject operation: The specified key does not exist.'')"

definition s3_get_object :: "env \<Rightarrow> pystr \<Rightarrow> pystr \<Rightarrow> pybytes prog" where
  "s3_get_object env bucket key =
     then_do (request (GetObject bucket key) (get_object_fault env)) (\<lambda>_ s.
       case objects s (bucket, key) of
         None \<Rightarrow> (Inl no_such_key, s)
       | Some obj \<Rightarrow> (Inr (body obj), s))"

definition s3_put_object :: "env \<Rightarrow> pystr \<Rightarrow> pystr \<Rightarrow> pybytes \<Rightarrow> pystr \<Rightarrow> unit prog" where
  "s3_put_object env bucket key data ctype =
     then_do (request (PutObject bucket key data ctype) (put_object_fault env)) (\<lambda>_ s.
       (Inr (), s\<lparr>objects := (objects s)((bucket, key) \<mapsto> \<lparr>body = data, content_type = ctype\<rparr>)\<rparr>))"

section \<open>The handler\<close>

text \<open>
  The handler is one function; it is cut here into the steps the specification names.
  \<open>print\<close> only writes to the log and is left out, except for the slice it evaluates on
  line 67. \<open>time.sleep(10)\<close> is a request that always returns.
\<close>

definition and_then :: "exc + 'a \<Rightarrow> ('a \<Rightarrow> exc + 'b) \<Rightarrow> exc + 'b" where
  "and_then r f = (case r of Inl e \<Rightarrow> Inl e | Inr x \<Rightarrow> f x)"

datatype subscript = Key pystr | Index0

fun subscript_value :: "json \<Rightarrow> subscript \<Rightarrow> exc + json" where
  "subscript_value v (Key k) = subscript_key v k"
| "subscript_value v Index0 = subscript_0 v"

text \<open>A chain \<open>v[i][j]...\<close>, evaluated from left to right.\<close>

fun subscripts :: "json \<Rightarrow> subscript list \<Rightarrow> exc + json" where
  "subscripts v [] = Inr v"
| "subscripts v (i # rest) = and_then (subscript_value v i) (\<lambda>v'. subscripts v' rest)"

text \<open>Lines 24 and 25: the bucket and the key of the first record.\<close>

definition event_decoder :: "json \<Rightarrow> exc + json \<times> pystr" where
  "event_decoder event =
     and_then (subscripts event [Key (lit ''Records''), Index0, Key (lit ''s3''), Key (lit ''bucket''), Key (lit ''name'')])
       (\<lambda>bucket.
     and_then (subscripts event [Key (lit ''Records''), Index0, Key (lit ''s3''), Key (lit ''object''), Key (lit ''key'')])
       (\<lambda>k.
     and_then (unquote_plus_value k)
       (\<lambda>key. Inr (bucket, key))))"

definition s3_uri :: "pystr \<Rightarrow> pystr \<Rightarrow> pystr" where
  "s3_uri bucket key = lit ''s3://'' @ bucket @ lit ''/'' @ key"

text \<open>Line 31: \<open>f"twilio-{uuid.uuid4().hex[:8]}"\<close>.\<close>

definition job_name :: "env \<Rightarrow> pystr" where
  "job_name env = lit ''twilio-'' @ take 8 (uuid4_hex env)"

text \<open>Line 32: \<open>key.split(".")[-1].lower()\<close>, what follows the last dot.\<close>

definition media_format :: "env \<Rightarrow> pystr \<Rightarrow> pystr" where
  "media_format env key = str_lower env (rev (takeWhile (\<lambda>c. c \<noteq> 46) (rev key)))"

definition transcript_key :: "env \<Rightarrow> pystr" where
  "transcript_key env = lit ''transcripts/'' @ job_name env @ lit ''.json''"

definition summary_key :: "env \<Rightarrow> pystr" where
  "summary_key env = lit ''summaries/'' @ job_name env @ lit ''_summary.txt''"

text \<open>
  Lines 34 to 41. The f-string of line 26 formats a bucket of any type, so the first
  thing to fail for a bucket that is not a \<open>str\<close> is the parameter check of this request.
\<close>

definition start_call :: "env \<Rightarrow> pystr \<Rightarrow> pystr \<Rightarrow> call" where
  "start_call env b key =
     StartTranscriptionJob (job_name env) (s3_uri b key) (media_format env key)
       (lit ''en-US'') b (transcript_key env)"

definition start_job :: "env \<Rightarrow> json \<Rightarrow> pystr \<Rightarrow> pystr prog" where
  "start_job env bucket key =
     (case bucket of
        JStr b \<Rightarrow> then_do (request (start_call env b key) (start_transcription_job env)) (\<lambda>_. ret b)
      | _ \<Rightarrow> raise (param_validation env bucket))"

definition COMPLETED :: pystr where
  "COMPLETED = lit ''COMPLETED''"

definition FAILED :: pystr where
  "FAILED = lit ''FAILED''"

definition IN_PROGRESS :: pystr where
  "IN_PROGRESS = lit ''IN_PROGRESS''"

text \<open>
  Lines 46 to 54, \<open>for _ in range(n)\<close> from iteration \<open>i\<close> on, with \<open>n\<close> iterations left.
  \<open>job_status\<close> is the variable of that name: \<open>None\<close> while it is unbound.
\<close>

fun poll_loop :: "env \<Rightarrow> nat \<Rightarrow> nat \<Rightarrow> pystr option \<Rightarrow> pystr option prog" where
  "poll_loop env 0 i job_status = ret job_status"
| "poll_loop env (Suc n) i job_status =
     then_do (request (GetTranscriptionJob (job_name env)) (get_transcription_job env i))
       (\<lambda>status.
          if status = COMPLETED \<or> status = FAILED then ret (Some status)
          else then_do (request (Sleep 10) (Inr ()))
                 (\<lambda>_. poll_loop env n (Suc i) (Some status)))"

text \<open>Lines 56 and 57.\<close>

definition check_failed :: "pystr option \<Rightarrow> unit prog" where
  "check_failed job_status =
     (case job_status of
        None \<Rightarrow> raise (Exc UnboundLocalError
                  (lit ''cannot access local variable '' @ lit [CHR 0x27] @ lit ''job_status'' @ lit [CHR 0x27]
                   @ lit '' where it is not associated with a value''))
      | Some status \<Rightarrow>
          if status = FAILED then raise (Exc Exception (lit ''Transcription failed''))
          else ret ())"

definition transcription_orchestrator :: "env \<Rightarrow> json \<Rightarrow> pystr \<Rightarrow> pystr prog" where
  "transcription_orchestrator env bucket key =
     then_do (start_job env bucket key) (\<lambda>b.
     then_do (poll_loop env 30 0 None) (\<lambda>job_status.
     then_do (check_failed job_status) (\<lambda>_.
     ret b)))"

text \<open>\<open>transcript_text[:150]\<close> inside the \<open>print\<close> of line 67: only its failure matters.\<close>

fun slice_150 :: "json \<Rightarrow> exc + unit" where
  "slice_150 (JStr s) = Inr ()"
| "slice_150 (JList xs) = Inr ()"
| "slice_150 (JDict kvs) =
     Inl (Exc TypeError (lit ''unhashable type: '' @ lit [CHR 0x27] @ lit ''slice'' @ lit [CHR 0x27]))"
| "slice_150 v = Inl (not_subscriptable v)"

text \<open>Lines 62 to 67.\<close>

definition transcript_text :: "json \<Rightarrow> exc + json" where
  "transcript_text transcript_json =
     subscripts transcript_json
       [Key (lit ''results''), Key (lit ''transcripts''), Index0, Key (lit ''transcript'')]"

definition transcript_fetcher :: "env \<Rightarrow> pystr \<Rightarrow> json prog" where
  "transcript_fetcher env b =
     then_do (s3_get_object env b (transcript_key env)) (\<lambda>data.
     then_do (lift (json_loads env data)) (\<lambda>transcript_json.
     then_do (lift (transcript_text transcript_json)) (\<lambda>text.
     then_do (lift (slice_150 text)) (\<lambda>_.
     ret text))))"

text \<open>Lines 70 to 78.\<close>

definition summarizer :: "env \<Rightarrow> json \<Rightarrow> pystr option prog" where
  "summarizer env text =
     request (ChatCompletionsCreate (lit ''gpt-4o-mini'')
                (lit ''Summarize medical consultations clearly and concisely.'') text 300)
             (chat_completions_create env text)"

text \<open>Lines 81 to 91: the value is the string returned as \<open>summary_file\<close>.\<close>

definition summary_encode :: "pystr option \<Rightarrow> exc + pybytes" where
  "summary_encode summary =
     (case summary of
        None \<Rightarrow> Inl (Exc AttributeError
                  (lit [CHR 0x27] @ lit ''NoneType'' @ lit [CHR 0x27] @ lit '' object has no attribute ''
                   @ lit [CHR 0x27] @ lit ''encode'' @ lit [CHR 0x27]))
      | Some s \<Rightarrow> str_encode_utf8 s)"

definition result_writer :: "env \<Rightarrow> pystr \<Rightarrow> pystr option \<Rightarrow> pystr prog" where
  "result_writer env b summary =
     then_do (lift (summary_encode summary)) (\<lambda>data.
     then_do (s3_put_object env b (summary_key env) data (lit ''text/plain'')) (\<lambda>_.
     ret (s3_uri b (summary_key env))))"

text \<open>Lines 59 to 91, what follows the check of the job status.\<close>

definition after_transcription :: "env \<Rightarrow> pystr \<Rightarrow> pystr prog" where
  "after_transcription env b =
     then_do (transcript_fetcher env b) (\<lambda>text.
     then_do (summarizer env text) (\<lambda>summary.
     result_writer env b summary))"

text \<open>The body of the \<open>try\<close>, lines 23 to 91.\<close>

definition try_body :: "env \<Rightarrow> json \<Rightarrow> pystr prog" where
  "try_body env event =
     then_do (lift (event_decoder event)) (\<lambda>(bucket, key).
     then_do (transcription_orchestrator env bucket key) (\<lambda>b.
     after_transcription env b))"

text \<open>
  The handler: the dict it returns (an association list, in the order of the source) and
  the state it leaves. Line 91 builds the success dict, lines 93 to 95 the error dict.
\<close>

definition lambda_handler :: "env \<Rightarrow> json \<Rightarrow> state \<Rightarrow> (pystr \<times> pystr) list \<times> state" where
  "lambda_handler env event s =
     (case try_body env event s of
        (Inr summary_file, s') \<Rightarrow>
          ([(lit ''status'', lit ''success''), (lit ''summary_file'', summary_file)], s')
      | (Inl e, s') \<Rightarrow> ([(lit ''error'', str_exc e)], s'))"

section \<open>Notions used in the statements\<close>

text \<open>A terminal state of a job, as the loop tests it on line 50.\<close>

definition terminal :: "pystr \<Rightarrow> bool" where
  "terminal status \<longleftrightarrow> status = COMPLETED \<or> status = FAILED"

text \<open>\<open>k\<close> rounds of the loop that went on: a status query, then a sleep of 10.\<close>

definition poll_calls :: "env \<Rightarrow> nat \<Rightarrow> call list" where
  "poll_calls env k = concat (replicate k [GetTranscriptionJob (job_name env), Sleep 10])"


fun is_summarizer_call :: "call \<Rightarrow> bool" where
  "is_summarizer_call (ChatCompletionsCreate model system_prompt text max_tokens) = True"
| "is_summarizer_call c = False"

fun is_write :: "call \<Rightarrow> bool" where
  "is_write (PutObject bucket key data ctype) = True"
| "is_write c = False"

text \<open>The requests made between state \<open>s\<close> and a later state \<open>s'\<close>.\<close>

definition made :: "state \<Rightarrow> state \<Rightarrow> call list" where
  "made s s' = drop (length (calls s)) (calls s')"

text \<open>
  Concrete inputs: an S3 notification with one record, a transcript document, and the
  environment of the end-to-end scenarios, with the answers to the status queries left
  open.
\<close>

definition s3_event :: "pystr \<Rightarrow> pystr \<Rightarrow> json" where
  "s3_event bucket key =
     JDict [(lit ''Records'',
       JList [JDict [(lit ''s3'',
         JDict [(lit ''bucket'', JDict [(lit ''name'', JStr bucket)]),
                (lit ''object'', JDict [(lit ''key'', JStr key)])])]])]"

definition transcript_json_of :: "pystr \<Rightarrow> json" where
  "transcript_json_of t =
     JDict [(lit ''results'', JDict [(lit ''transcripts'', JList [JDict [(lit ''transcript'', JStr t)]])])]"

definition ascii_lower :: "pystr \<Rightarrow> pystr" where
  "ascii_lower = map (\<lambda>c. if 65 \<le> c \<and> c \<le> 90 then c + 32 else c)"

text \<open>
  The bytes of the transcript document
  \<^verbatim>\<open>{"results": {"transcripts": [{"transcript": "Patient reports mild fever."}]}}\<close>
  and what \<open>json.loads\<close> makes of them.
\<close>

definition scenario_transcript :: pybytes where
  "scenario_transcript =
    [123, 34, 114, 101, 115, 117, 108, 116, 115, 34, 58, 32, 123, 34, 116, 114, 97, 110,
     115, 99, 114, 105, 112, 116, 115, 34, 58, 32, 91, 123, 34, 116, 114, 97, 110, 115, 99,
     114, 105, 112, 116, 34, 58, 32, 34, 80, 97, 116, 105, 101, 110, 116, 32, 114, 101,
     112, 111, 114, 116, 115, 32, 109, 105, 108, 100, 32, 102, 101, 118, 101, 114, 46, 34,
     125, 93, 125, 125]"

definition scenario_env :: "(nat \<Rightarrow> exc + pystr) \<Rightarrow> env" where
  "scenario_env answers =
     \<lparr>uuid4_hex = lit ''0123456789abcdef0123456789abcdef'',
      str_lower = ascii_lower,
      json_loads = (\<lambda>data. if data = scenario_transcript
                            then Inr (transcript_json_of (lit ''Patient reports mild fever.''))
                            else Inl (Exc JSONDecodeError (lit ''Expecting value: line 1 column 1 (char 0)''))),
      param_validation = (\<lambda>v. Exc ParamValidationError (lit ''Parameter validation failed'')),
      start_transcription_job = Inr (),
      get_transcription_job = answers,
      get_object_fault = Inr (),
      chat_completions_create = (\<lambda>text. Inr (Some (lit ''Patient has a mild fever.''))),
      put_object_fault = Inr ()\<rparr>"

text \<open>The store once the transcription service has written its output for the job.\<close>

definition scenario_store :: "pystr \<times> pystr \<Rightarrow> s3_object option" where
  "scenario_store =
     [(lit ''medrecs'', lit ''transcripts/twilio-01234567.json'') \<mapsto>
        \<lparr>body = scenario_transcript, content_type = lit ''application/json''\<rparr>]"

definition scenario_state :: "(pystr \<times> pystr \<Rightarrow> s3_object option) \<Rightarrow> state" where
  "scenario_state store = \<lparr>calls = [], objects = store\<rparr>"

definition scenario_event :: json where
  "scenario_event = s3_event (lit ''medrecs'') (lit ''calls/visit1.wav'')"

definition scenario_answers :: "nat \<Rightarrow> exc + pystr" where
  "scenario_answers i = Inr (if i < 2 then IN_PROGRESS else COMPLETED)"

text \<open>
  The value at \<open>results.transcripts[0].transcript\<close> of a JSON document, read as a path
  through objects and lists: \<open>None\<close> when the path is absent.
\<close>

fun member_of :: "json \<Rightarrow> pystr \<Rightarrow> json option" where
  "member_of (JDict kvs) k = map_of kvs k"
| "member_of v k = None"

fun first_of :: "json \<Rightarrow> json option" where
  "first_of (JList (x # xs)) = Some x"
| "first_of v = None"

definition transcript_at_path :: "json \<Rightarrow> json option" where
  "transcript_at_path j =
     Option.bind (member_of j (lit ''results'')) (\<lambda>results.
     Option.bind (member_of results (lit ''transcripts'')) (\<lambda>transcripts.
     Option.bind (first_of transcripts) (\<lambda>first.
     member_of first (lit ''transcript''))))"

text \<open>The exceptions a subscript raises on a value of the wrong shape.\<close>

fun shape_error :: "exc \<Rightarrow> bool" where
  "shape_error (Exc c m) = (c = KeyError \<or> c = IndexError \<or> c = TypeError)"

definition empty_transcripts :: json where
  "empty_transcripts = JDict [(lit ''results'', JDict [(lit ''transcripts'', JList [])])]"

text \<open>What \<open>unquote\<close> does to one run of the string.\<close>

definition unquote_run :: "bool \<times> pystr \<Rightarrow> pystr" where
  "unquote_run p = (if fst p then bytes_decode_utf8_replace (unquote_to_bytes (snd p)) else snd p)"

text \<open>
  The trigger payload as the interface describes it,
  \<^verbatim>\<open>{Records: [{s3: {bucket: {name}, object: {key}}}, ...]}\<close>: the bucket name and the
  key of its first record, when both are there and are strings.
\<close>

definition first_record :: "json \<Rightarrow> (pystr \<times> pystr) option" where
  "first_record event =
     Option.bind (member_of event (lit ''Records'')) (\<lambda>records.
     Option.bind (first_of records) (\<lambda>record.
     Option.bind (member_of record (lit ''s3'')) (\<lambda>s3.
       case (Option.bind (member_of s3 (lit ''bucket'')) (\<lambda>bucket. member_of bucket (lit ''name'')),
             Option.bind (member_of s3 (lit ''object'')) (\<lambda>object. member_of object (lit ''key''))) of
         (Some (JStr name), Some (JStr key)) \<Rightarrow> Some (name, key)
       | _ \<Rightarrow> None)))"

text \<open>
  Percent-decoding in the words of the specification: every escape \<open>%XX\<close> stands for a
  byte, the bytes are read as UTF-8, and every other character is kept as it is. This is
  what \<open>urllib.parse.unquote\<close> computes.
\<close>

definition percent_decoded :: "pystr \<Rightarrow> pystr" where
  "percent_decoded key = unquote key"

section \<open>The steps of a run\<close>

subsection \<open>Running a program\<close>

lemma then_do_apply:
  "then_do m f s = (case m s of (Inl e, s') \<Rightarrow> (Inl e, s') | (Inr x, s') \<Rightarrow> f x s')"
  by (simp add: then_do_def)

lemma request_apply: "request c answer s = (answer, s\<lparr>calls := calls s @ [c]\<rparr>)"
  by (simp add: request_def)

lemma ret_apply: "ret x s = (Inr x, s)"
  by (simp add: ret_def)

lemma raise_apply: "raise e s = (Inl e, s)"
  by (simp add: raise_def)

lemma lift_apply: "lift r s = (r, s)"
  by (simp add: lift_def)

lemmas prog_simps = then_do_apply request_apply ret_apply raise_apply lift_apply

subsection \<open>The polling loop\<close>

lemma poll_calls_Suc: "poll_calls env (Suc k) = GetTranscriptionJob (job_name env) # Sleep 10 # poll_calls env k"
  by (simp add: poll_calls_def)

lemma poll_calls_0: "poll_calls env 0 = []"
  by (simp add: poll_calls_def)

lemma poll_loop_stops:
  "k < n \<Longrightarrow> (\<forall>j<k. \<exists>st. get_transcription_job env (i + j) = Inr st \<and> \<not> terminal st)
   \<Longrightarrow> get_transcription_job env (i + k) = Inr status \<Longrightarrow> terminal status
   \<Longrightarrow> poll_loop env n i job_status s =
         (Inr (Some status), s\<lparr>calls := calls s @ poll_calls env k @ [GetTranscriptionJob (job_name env)]\<rparr>)"
proof (induction n arbitrary: k i job_status s)
  case 0
  then show ?case by simp
next
  case (Suc n)
  show ?case
  proof (cases k)
    case 0
    with Suc.prems show ?thesis
      by (simp add: prog_simps terminal_def poll_calls_0)
  next
    case (Suc k')
    from Suc.prems(2) Suc have "\<exists>st. get_transcription_job env (i + 0) = Inr st \<and> \<not> terminal st"
      by blast
    then obtain st where st: "get_transcription_job env i = Inr st" "\<not> terminal st" by auto
    have rest: "\<forall>j<k'. \<exists>st. get_transcription_job env (Suc i + j) = Inr st \<and> \<not> terminal st"
    proof (intro allI impI)
      fix j assume "j < k'"
      then have "Suc j < k" using Suc by simp
      with Suc.prems(2) have "\<exists>st. get_transcription_job env (i + Suc j) = Inr st \<and> \<not> terminal st" by blast
      then show "\<exists>st. get_transcription_job env (Suc i + j) = Inr st \<and> \<not> terminal st" by simp
    qed
    have k': "k' < n" using Suc.prems(1) Suc by simp
    have last: "get_transcription_job env (Suc i + k') = Inr status" using Suc.prems(3) Suc by simp
    note IH = Suc.IH [OF k' rest last Suc.prems(4)]
    show ?thesis
      using st Suc by (simp add: prog_simps terminal_def poll_calls_Suc IH)
  qed
qed

lemma poll_loop_exhausts:
  "(\<forall>j<n. get_transcription_job env (i + j) = Inr (sts (i + j)) \<and> \<not> terminal (sts (i + j)))
   \<Longrightarrow> poll_loop env n i job_status s =
         (Inr (if n = 0 then job_status else Some (sts (i + n - 1))), s\<lparr>calls := calls s @ poll_calls env n\<rparr>)"
proof (induction n arbitrary: i job_status s)
  case 0
  then show ?case by (simp add: prog_simps poll_calls_0)
next
  case (Suc n)
  from Suc.prems have "get_transcription_job env (i + 0) = Inr (sts (i + 0)) \<and> \<not> terminal (sts (i + 0))"
    by blast
  then have first: "get_transcription_job env i = Inr (sts i)" "\<not> terminal (sts i)" by simp_all
  have rest: "\<forall>j<n. get_transcription_job env (Suc i + j) = Inr (sts (Suc i + j)) \<and> \<not> terminal (sts (Suc i + j))"
  proof (intro allI impI)
    fix j assume "j < n"
    then have "Suc j < Suc n" by simp
    with Suc.prems have "get_transcription_job env (i + Suc j) = Inr (sts (i + Suc j)) \<and> \<not> terminal (sts (i + Suc j))" by blast
    then show "get_transcription_job env (Suc i + j) = Inr (sts (Suc i + j)) \<and> \<not> terminal (sts (Suc i + j))" by simp
  qed
  note IH = Suc.IH [OF rest]
  show ?case
    using first by (simp add: prog_simps terminal_def poll_calls_Suc IH)
qed

lemma poll_loop_shape:
  "\<exists>k tr. snd (poll_loop env n i job_status s) = s\<lparr>calls := calls s @ poll_calls env k @ tr\<rparr>
     \<and> ((tr = [] \<and> k = n) \<or> (tr = [GetTranscriptionJob (job_name env)] \<and> k < n))"
proof (induction n arbitrary: i job_status s)
  case 0
  then show ?case by (simp add: prog_simps poll_calls_0)
next
  case (Suc n)
  show ?case
  proof (cases "get_transcription_job env i")
    case (Inl e)
    then have "snd (poll_loop env (Suc n) i job_status s) = s\<lparr>calls := calls s @ poll_calls env 0 @ [GetTranscriptionJob (job_name env)]\<rparr>"
      by (simp add: prog_simps poll_calls_0)
    then show ?thesis by blast
  next
    case (Inr st)
    show ?thesis
    proof (cases "st = COMPLETED \<or> st = FAILED")
      case True
      with Inr have "snd (poll_loop env (Suc n) i job_status s) = s\<lparr>calls := calls s @ poll_calls env 0 @ [GetTranscriptionJob (job_name env)]\<rparr>"
        by (simp add: prog_simps poll_calls_0)
      then show ?thesis by blast
    next
      case False
      let ?s1 = "s\<lparr>calls := calls s @ [GetTranscriptionJob (job_name env)] @ [Sleep 10]\<rparr>"
      from Suc.IH [of "Suc i" "Some st" ?s1] obtain k tr where
        k: "snd (poll_loop env n (Suc i) (Some st) ?s1) = ?s1\<lparr>calls := calls ?s1 @ poll_calls env k @ tr\<rparr>"
        and tr: "(tr = [] \<and> k = n) \<or> (tr = [GetTranscriptionJob (job_name env)] \<and> k < n)" by blast
      have "snd (poll_loop env (Suc n) i job_status s) = s\<lparr>calls := calls s @ poll_calls env (Suc k) @ tr\<rparr>"
        using Inr False k by (simp add: prog_simps poll_calls_Suc)
      moreover have "(tr = [] \<and> Suc k = Suc n) \<or> (tr = [GetTranscriptionJob (job_name env)] \<and> Suc k < Suc n)"
        using tr by auto
      ultimately show ?thesis by blast
    qed
  qed
qed

subsection \<open>The orchestrator\<close>

lemma start_job_ok:
  "start_transcription_job env = Inr () \<Longrightarrow>
   start_job env (JStr b) key s = (Inr b, s\<lparr>calls := calls s @ [start_call env b key]\<rparr>)"
  by (simp add: start_job_def prog_simps)

lemma FAILED_neq_COMPLETED: "FAILED \<noteq> COMPLETED"
  by (simp add: FAILED_def COMPLETED_def lit_def)

lemma check_failed_FAILED:
  "check_failed (Some FAILED) s = (Inl (Exc Exception (lit ''Transcription failed'')), s)"
  by (simp add: check_failed_def prog_simps)

lemma check_failed_other:
  "status \<noteq> FAILED \<Longrightarrow> check_failed (Some status) s = (Inr (), s)"
  by (simp add: check_failed_def prog_simps)

lemma orchestrator_stops:
  assumes "start_transcription_job env = Inr ()"
    and "k < 30"
    and "\<forall>j<k. \<exists>st. get_transcription_job env j = Inr st \<and> \<not> terminal st"
    and "get_transcription_job env k = Inr status" and "terminal status"
  shows "transcription_orchestrator env (JStr b) key s =
           (if status = FAILED then Inl (Exc Exception (lit ''Transcription failed'')) else Inr b,
            s\<lparr>calls := calls s @ start_call env b key # poll_calls env k @ [GetTranscriptionJob (job_name env)]\<rparr>)"
proof -
  have loop: "poll_loop env 30 0 None s' =
      (Inr (Some status), s'\<lparr>calls := calls s' @ poll_calls env k @ [GetTranscriptionJob (job_name env)]\<rparr>)" for s'
    using assms(2-5) by (intro poll_loop_stops) simp_all
  show ?thesis
    by (simp add: transcription_orchestrator_def then_do_apply start_job_ok [OF assms(1)] loop
        check_failed_FAILED check_failed_other ret_apply)
qed

lemma orchestrator_exhausts:
  assumes "start_transcription_job env = Inr ()"
    and "\<forall>j<30. get_transcription_job env j = Inr (sts j) \<and> \<not> terminal (sts j)"
  shows "transcription_orchestrator env (JStr b) key s =
           (Inr b, s\<lparr>calls := calls s @ start_call env b key # poll_calls env 30\<rparr>)"
proof -
  have loop: "poll_loop env 30 0 None s' = (Inr (Some (sts 29)), s'\<lparr>calls := calls s' @ poll_calls env 30\<rparr>)" for s'
    using poll_loop_exhausts [of 30 env 0 sts None s'] assms(2) by simp
  have "\<not> terminal (sts 29)" using assms(2) by simp
  then have "sts 29 \<noteq> FAILED" by (simp add: terminal_def)
  then show ?thesis
    by (simp add: transcription_orchestrator_def then_do_apply start_job_ok [OF assms(1)] loop
        check_failed_other ret_apply)
qed

lemma try_body_decoded:
  "event_decoder event = Inr (bucket, key) \<Longrightarrow>
   try_body env event s =
     then_do (transcription_orchestrator env bucket key) (after_transcription env) s"
  by (simp add: try_body_def then_do_def lift_def)

subsection \<open>After the transcription\<close>

lemmas stage_defs = after_transcription_def transcript_fetcher_def s3_get_object_def summarizer_def
  result_writer_def s3_put_object_def


lemma after_transcription_success:
  assumes "after_transcription env b s = (Inr loc, s')"
  shows "\<exists>obj j text summary data.
           objects s (b, transcript_key env) = Some obj \<and> json_loads env (body obj) = Inr j
         \<and> transcript_text j = Inr text
         \<and> chat_completions_create env text = Inr (Some summary)
         \<and> str_encode_utf8 summary = Inr data
         \<and> loc = s3_uri b (summary_key env)
         \<and> s' = s\<lparr>calls := calls s @ [GetObject b (transcript_key env),
                      ChatCompletionsCreate (lit ''gpt-4o-mini'')
                        (lit ''Summarize medical consultations clearly and concisely.'') text 300,
                      PutObject b (summary_key env) data (lit ''text/plain'')],
                   objects := (objects s)((b, summary_key env) \<mapsto>
                      \<lparr>body = data, content_type = lit ''text/plain''\<rparr>)\<rparr>"
  using assms
  by (auto simp: stage_defs summary_encode_def prog_simps split: sum.splits option.splits prod.splits)

lemma after_transcription_failure:
  assumes "after_transcription env b s = (Inl e, s')"
  shows "objects s' = objects s"
  using assms
  by (auto simp: stage_defs summary_encode_def prog_simps split: sum.splits option.splits prod.splits)

subsection \<open>Whole runs, and the scenarios\<close>

lemma poll_calls_no_summary: "\<not> list_ex is_summarizer_call (poll_calls env k)"
  by (induction k) (simp_all add: poll_calls_0 poll_calls_Suc)

lemma poll_calls_no_write: "\<not> list_ex is_write (poll_calls env k)"
  by (induction k) (simp_all add: poll_calls_0 poll_calls_Suc)

lemma event_decoder_s3_event: "event_decoder (s3_event b k) = Inr (JStr b, unquote_plus k)"
  by (simp add: event_decoder_def s3_event_def and_then_def lit_def)

lemma unquote_no_percent: "37 \<notin> set s \<Longrightarrow> unquote s = s"
  by (simp add: unquote_def)

lemma scenario_decoded:
  "event_decoder scenario_event = Inr (JStr (lit ''medrecs''), lit ''calls/visit1.wav'')"
  by (simp add: scenario_event_def event_decoder_s3_event unquote_plus_def unquote_def lit_def)

lemma IN_PROGRESS_not_terminal: "\<not> terminal IN_PROGRESS"
  by (simp add: terminal_def IN_PROGRESS_def COMPLETED_def FAILED_def lit_def)

lemma COMPLETED_terminal: "terminal COMPLETED"
  by (simp add: terminal_def)

lemma COMPLETED_neq_FAILED: "COMPLETED \<noteq> FAILED"
  by (simp add: FAILED_def COMPLETED_def lit_def)


lemma try_body_exhausted:
  assumes "event_decoder event = Inr (JStr b, key)"
    and "start_transcription_job env = Inr ()"
    and "\<forall>j<30. get_transcription_job env j = Inr (sts j) \<and> \<not> terminal (sts j)"
  shows "try_body env event s =
           after_transcription env b (s\<lparr>calls := calls s @ start_call env b key # poll_calls env 30\<rparr>)"
  by (simp add: try_body_decoded [OF assms(1)] then_do_apply orchestrator_exhausts [OF assms(2,3)])

lemma try_body_completed:
  assumes "event_decoder event = Inr (JStr b, key)"
    and "start_transcription_job env = Inr ()"
    and "k < 30"
    and "\<forall>j<k. \<exists>st. get_transcription_job env j = Inr st \<and> \<not> terminal st"
    and "get_transcription_job env k = Inr COMPLETED"
  shows "try_body env event s =
           after_transcription env b
             (s\<lparr>calls := calls s @ start_call env b key # poll_calls env k @ [GetTranscriptionJob (job_name env)]\<rparr>)"
  by (simp add: try_body_decoded [OF assms(1)] then_do_apply
      orchestrator_stops [OF assms(2-5) COMPLETED_terminal] COMPLETED_neq_FAILED)


lemma lambda_handler_objects: "objects (snd (lambda_handler env event s)) = objects (snd (try_body env event s))"
  by (simp add: lambda_handler_def split: prod.splits sum.splits)


lemma scenario_after_transcription:
  assumes "objects s = scenario_store"
  shows "after_transcription (scenario_env answers) (lit ''medrecs'') s =
     (Inr (lit ''s3://medrecs/summaries/twilio-01234567_summary.txt''),
      s\<lparr>calls := calls s @
           [GetObject (lit ''medrecs'') (lit ''transcripts/twilio-01234567.json''),
            ChatCompletionsCreate (lit ''gpt-4o-mini'')
              (lit ''Summarize medical consultations clearly and concisely.'')
              (JStr (lit ''Patient reports mild fever.'')) 300,
            PutObject (lit ''medrecs'') (lit ''summaries/twilio-01234567_summary.txt'')
              (lit ''Patient has a mild fever.'') (lit ''text/plain'')],
         objects := scenario_store((lit ''medrecs'', lit ''summaries/twilio-01234567_summary.txt'') \<mapsto>
              \<lparr>body = lit ''Patient has a mild fever.'', content_type = lit ''text/plain''\<rparr>)\<rparr>)"
  using assms
  by (simp add: stage_defs prog_simps scenario_env_def scenario_store_def transcript_key_def summary_key_def
      job_name_def s3_uri_def transcript_text_def transcript_json_of_def and_then_def summary_encode_def
      str_encode_utf8_def is_surrogate_def lit_def)

subsection \<open>What a run did, read off its result\<close>

lemma made_append: "made s (s\<lparr>calls := calls s @ tr\<rparr>) = tr"
  by (simp add: made_def)

lemma poll_loop_state:
  "\<exists>tr. snd (poll_loop env n i job_status s) = s\<lparr>calls := calls s @ tr\<rparr>
      \<and> \<not> list_ex is_summarizer_call tr \<and> \<not> list_ex is_write tr"
proof -
  obtain k tr where "snd (poll_loop env n i job_status s) = s\<lparr>calls := calls s @ poll_calls env k @ tr\<rparr>"
    and "(tr = [] \<and> k = n) \<or> (tr = [GetTranscriptionJob (job_name env)] \<and> k < n)"
    using poll_loop_shape by blast
  then show ?thesis
    by (intro exI [of _ "poll_calls env k @ tr"]) (auto simp: poll_calls_no_summary poll_calls_no_write)
qed

lemma orchestrator_state:
  "\<exists>tr. snd (transcription_orchestrator env bucket key s) = s\<lparr>calls := calls s @ tr\<rparr>
      \<and> \<not> list_ex is_summarizer_call tr \<and> \<not> list_ex is_write tr"
proof (cases "\<exists>b. bucket = JStr b \<and> start_transcription_job env = Inr ()")
  case True
  then obtain b where b: "bucket = JStr b" "start_transcription_job env = Inr ()" by blast
  let ?s1 = "s\<lparr>calls := calls s @ [start_call env b key]\<rparr>"
  obtain tr where tr: "snd (poll_loop env 30 0 None ?s1) = ?s1\<lparr>calls := calls ?s1 @ tr\<rparr>"
    "\<not> list_ex is_summarizer_call tr" "\<not> list_ex is_write tr"
    using poll_loop_state by blast
  have "snd (transcription_orchestrator env bucket key s) = s\<lparr>calls := calls s @ start_call env b key # tr\<rparr>"
    using tr(1) b
    by (cases "poll_loop env 30 0 None ?s1")
       (auto simp: transcription_orchestrator_def then_do_apply start_job_ok check_failed_def ret_apply raise_apply
             split: sum.splits option.splits)
  moreover have "\<not> list_ex is_summarizer_call (start_call env b key # tr)" "\<not> list_ex is_write (start_call env b key # tr)"
    using tr(2,3) by (simp_all add: start_call_def)
  ultimately show ?thesis by blast
next
  case False
  then have "snd (transcription_orchestrator env bucket key s) = s\<lparr>calls := calls s @ []\<rparr>
           \<or> (\<exists>b. snd (transcription_orchestrator env bucket key s) = s\<lparr>calls := calls s @ [start_call env b key]\<rparr>)"
    by (cases bucket; cases "start_transcription_job env")
       (auto simp: transcription_orchestrator_def start_job_def prog_simps)
  then show ?thesis
    by (auto simp: start_call_def intro: exI [of _ "[]"])
qed

lemma orchestrator_success:
  assumes "transcription_orchestrator env bucket key s = (Inr b, s1)"
  shows "bucket = JStr b"
  using assms
  by (cases bucket)
     (auto simp: transcription_orchestrator_def start_job_def prog_simps split: sum.splits prod.splits)

lemma try_body_success:
  assumes "try_body env event s = (Inr loc, s')"
  shows "\<exists>b key tr. event_decoder event = Inr (JStr b, key)
           \<and> after_transcription env b (s\<lparr>calls := calls s @ tr\<rparr>) = (Inr loc, s')"
proof -
  obtain bucket key where dec: "event_decoder event = Inr (bucket, key)"
    using assms by (cases "event_decoder event") (auto simp: try_body_def then_do_def lift_def)
  obtain r s1 where orch: "transcription_orchestrator env bucket key s = (r, s1)" by fastforce
  obtain tr where tr: "s1 = s\<lparr>calls := calls s @ tr\<rparr>"
    using orchestrator_state [of env bucket key s] orch by auto
  from assms dec orch obtain b where r: "r = Inr b" and after: "after_transcription env b s1 = (Inr loc, s')"
    by (cases r) (auto simp: try_body_decoded then_do_apply)
  have "bucket = JStr b" using orchestrator_success orch r by blast
  with dec after tr show ?thesis by blast
qed

lemma orchestrator_success_calls:
  assumes "transcription_orchestrator env bucket key s = (Inr b, s1)"
  shows "\<exists>tr. s1 = s\<lparr>calls := calls s @ start_call env b key # tr\<rparr>"
proof -
  have b: "bucket = JStr b" using assms by (rule orchestrator_success)
  have st: "start_transcription_job env = Inr ()"
    using assms b by (cases "start_transcription_job env")
      (auto simp: transcription_orchestrator_def start_job_def prog_simps)
  let ?s1 = "s\<lparr>calls := calls s @ [start_call env b key]\<rparr>"
  obtain tr where tr: "snd (poll_loop env 30 0 None ?s1) = ?s1\<lparr>calls := calls ?s1 @ tr\<rparr>"
    using poll_loop_state by blast
  have "s1 = s\<lparr>calls := calls s @ start_call env b key # tr\<rparr>"
    using assms tr b st
    by (cases "poll_loop env 30 0 None ?s1")
       (auto simp: transcription_orchestrator_def then_do_apply start_job_ok check_failed_def ret_apply raise_apply
             split: sum.splits option.splits if_splits)
  then show ?thesis by blast
qed

lemma try_body_success_calls:
  assumes "try_body env event s = (Inr loc, s')"
  shows "\<exists>b key tr. event_decoder event = Inr (JStr b, key)
           \<and> after_transcription env b (s\<lparr>calls := calls s @ start_call env b key # tr\<rparr>) = (Inr loc, s')"
proof -
  obtain bucket key where dec: "event_decoder event = Inr (bucket, key)"
    using assms by (cases "event_decoder event") (auto simp: try_body_def then_do_def lift_def)
  obtain r s1 where orch: "transcription_orchestrator env bucket key s = (r, s1)" by fastforce
  from assms dec orch obtain b where r: "r = Inr b" and after: "after_transcription env b s1 = (Inr loc, s')"
    by (cases r) (auto simp: try_body_decoded then_do_apply)
  have "bucket = JStr b" using orchestrator_success orch r by blast
  moreover obtain tr where "s1 = s\<lparr>calls := calls s @ start_call env b key # tr\<rparr>"
    using orchestrator_success_calls orch r by blast
  ultimately show ?thesis using dec after by blast
qed

lemma handler_success:
  assumes "map_of (fst (lambda_handler env event s)) (lit ''status'') = Some (lit ''success'')"
  shows "\<exists>loc. try_body env event s = (Inr loc, snd (lambda_handler env event s))"
  using assms
  by (cases "try_body env event s"; cases "fst (try_body env event s)")
     (auto simp: lambda_handler_def lit_def)

lemma handler_of_success:
  "try_body env event s = (Inr loc, s') \<Longrightarrow>
   lambda_handler env event s = ([(lit ''status'', lit ''success''), (lit ''summary_file'', loc)], s')"
  by (simp add: lambda_handler_def)

lemma handler_of_failure:
  "try_body env event s = (Inl e, s') \<Longrightarrow> lambda_handler env event s = ([(lit ''error'', str_exc e)], s')"
  by (simp add: lambda_handler_def)

lemma scenario_success:
  "lambda_handler (scenario_env scenario_answers) scenario_event (scenario_state scenario_store) =
     ([(lit ''status'', lit ''success''),
       (lit ''summary_file'', lit ''s3://medrecs/summaries/twilio-01234567_summary.txt'')],
      \<lparr>calls =
         start_call (scenario_env scenario_answers) (lit ''medrecs'') (lit ''calls/visit1.wav'')
         # poll_calls (scenario_env scenario_answers) 2
         @ [GetTranscriptionJob (lit ''twilio-01234567''),
            GetObject (lit ''medrecs'') (lit ''transcripts/twilio-01234567.json''),
            ChatCompletionsCreate (lit ''gpt-4o-mini'')
              (lit ''Summarize medical consultations clearly and concisely.'')
              (JStr (lit ''Patient reports mild fever.'')) 300,
            PutObject (lit ''medrecs'') (lit ''summaries/twilio-01234567_summary.txt'')
              (lit ''Patient has a mild fever.'') (lit ''text/plain'')],
       objects = scenario_store((lit ''medrecs'', lit ''summaries/twilio-01234567_summary.txt'') \<mapsto>
            \<lparr>body = lit ''Patient has a mild fever.'', content_type = lit ''text/plain''\<rparr>)\<rparr>)"
proof -
  have before: "\<forall>j<2. \<exists>st. get_transcription_job (scenario_env scenario_answers) j = Inr st \<and> \<not> terminal st"
    by (simp add: scenario_env_def scenario_answers_def IN_PROGRESS_not_terminal)
  have at: "get_transcription_job (scenario_env scenario_answers) 2 = Inr COMPLETED"
    by (simp add: scenario_env_def scenario_answers_def)
  have start: "start_transcription_job (scenario_env scenario_answers) = Inr ()"
    by (simp add: scenario_env_def)
  have two: "(2::nat) < 30" by simp
  have job: "job_name (scenario_env scenario_answers) = lit ''twilio-01234567''"
    by (simp add: job_name_def scenario_env_def lit_def)
  show ?thesis
    by (simp add: lambda_handler_def try_body_completed [OF scenario_decoded start two before at]
        scenario_after_transcription scenario_state_def job)
qed

subsection \<open>The path to the transcript\<close>

lemma subscript_key_member:
  "member_of v k = Some x \<Longrightarrow> subscript_key v k = Inr x"
  by (cases v) simp_all

lemma subscript_key_no_member:
  "member_of v k = None \<Longrightarrow> \<exists>e. subscript_key v k = Inl e \<and> shape_error e"
  by (cases v) (simp_all add: not_subscriptable_def)

lemma subscript_0_first:
  "first_of v = Some x \<Longrightarrow> subscript_0 v = Inr x"
  by (cases v rule: first_of.cases) simp_all

lemma subscript_0_no_first:
  "first_of v = None \<Longrightarrow>
     (\<exists>e. subscript_0 v = Inl e \<and> shape_error e) \<or> (\<exists>c. subscript_0 v = Inr (JStr [c]))"
  by (cases v rule: subscript_0.cases) (simp_all add: not_subscriptable_def)

lemma transcript_text_present:
  "transcript_at_path j = Some v \<Longrightarrow> transcript_text j = Inr v"
  by (auto simp: transcript_at_path_def transcript_text_def and_then_def
      subscript_key_member subscript_0_first split: Option.bind_splits)

lemma transcript_text_absent:
  assumes "transcript_at_path j = None"
  shows "\<exists>e. transcript_text j = Inl e \<and> shape_error e"
proof (cases "member_of j (lit ''results'')")
  case None
  then show ?thesis
    using subscript_key_no_member [of j "lit ''results''"]
    by (auto simp: transcript_text_def and_then_def)
next
  case (Some results)
  note r = subscript_key_member [OF Some]
  show ?thesis
  proof (cases "member_of results (lit ''transcripts'')")
    case None
    then show ?thesis
      using subscript_key_no_member [of results "lit ''transcripts''"] r
      by (auto simp: transcript_text_def and_then_def)
  next
    case ts: (Some transcripts)
    note t = subscript_key_member [OF ts]
    show ?thesis
    proof (cases "first_of transcripts")
      case None
      from subscript_0_no_first [OF None] show ?thesis
      proof
        assume "\<exists>e. subscript_0 transcripts = Inl e \<and> shape_error e"
        then show ?thesis using r t by (auto simp: transcript_text_def and_then_def)
      next
        assume "\<exists>c. subscript_0 transcripts = Inr (JStr [c])"
        then show ?thesis using r t by (auto simp: transcript_text_def and_then_def)
      qed
    next
      case f: (Some first)
      note f0 = subscript_0_first [OF f]
      have "member_of first (lit ''transcript'') = None"
        using assms Some ts f by (simp add: transcript_at_path_def)
      then show ?thesis
        using subscript_key_no_member [of first "lit ''transcript''"] r t f0
        by (auto simp: transcript_text_def and_then_def)
    qed
  qed
qed

lemma transcript_fetcher_shape_error:
  assumes "get_object_fault env = Inr ()"
    and "objects s (b, transcript_key env) = Some obj"
    and "json_loads env (body obj) = Inr j"
    and "transcript_text j = Inl e"
  shows "transcript_fetcher env b s = (Inl e, s\<lparr>calls := calls s @ [GetObject b (transcript_key env)]\<rparr>)"
    and "after_transcription env b s = (Inl e, s\<lparr>calls := calls s @ [GetObject b (transcript_key env)]\<rparr>)"
  using assms by (simp_all add: stage_defs prog_simps)

lemma after_transcription_absent:
  assumes "objects s (b, transcript_key env) = Some obj"
    and "json_loads env (body obj) = Inr j"
    and "transcript_text j = Inl e"
  shows "\<exists>e'. after_transcription env b s = (Inl e', s\<lparr>calls := calls s @ [GetObject b (transcript_key env)]\<rparr>)"
  using assms by (cases "get_object_fault env") (simp_all add: stage_defs prog_simps)

lemma try_body_absent:
  assumes "event_decoder event = Inr (JStr b, key)"
    and "objects s (b, transcript_key env) = Some obj"
    and "json_loads env (body obj) = Inr j"
    and "transcript_text j = Inl e"
  shows "\<exists>e' tr. try_body env event s = (Inl e', s\<lparr>calls := calls s @ tr\<rparr>)
           \<and> \<not> list_ex is_summarizer_call tr \<and> \<not> list_ex is_write tr"
proof -
  obtain r s1 where orch: "transcription_orchestrator env (JStr b) key s = (r, s1)" by fastforce
  obtain tr where tr: "s1 = s\<lparr>calls := calls s @ tr\<rparr>"
    "\<not> list_ex is_summarizer_call tr" "\<not> list_ex is_write tr"
    using orchestrator_state [of env "JStr b" key s] orch by auto
  show ?thesis
  proof (cases r)
    case (Inl e')
    then have "try_body env event s = (Inl e', s\<lparr>calls := calls s @ tr\<rparr>)"
      using orch tr(1) by (simp add: try_body_decoded [OF assms(1)] then_do_apply)
    then show ?thesis using tr(2,3) by blast
  next
    case (Inr b')
    then have b': "b' = b" using orchestrator_success orch by blast
    have "objects s1 (b, transcript_key env) = Some obj" using assms(2) tr(1) by simp
    from after_transcription_absent [OF this assms(3,4)] obtain e' where
      "after_transcription env b s1 = (Inl e', s1\<lparr>calls := calls s1 @ [GetObject b (transcript_key env)]\<rparr>)"
      by blast
    then have "try_body env event s = (Inl e', s\<lparr>calls := calls s @ (tr @ [GetObject b (transcript_key env)])\<rparr>)"
      using orch Inr b' tr(1) by (simp add: try_body_decoded [OF assms(1)] then_do_apply)
    moreover have "\<not> list_ex is_summarizer_call (tr @ [GetObject b (transcript_key env)])"
      "\<not> list_ex is_write (tr @ [GetObject b (transcript_key env)])"
      using tr(2,3) by simp_all
    ultimately show ?thesis by blast
  qed
qed

subsection \<open>Decoding what was encoded\<close>

lemma utf8_next_2:
  assumes "0x80 \<le> c" "c < 0x800"
  shows "utf8_next ((0xC0 + c div 64) # (0x80 + c mod 64) # rest) = Decoded c 2"
proof -
  have d: "2 \<le> c div 64" "c div 64 < 32" using assms by arith+
  have m: "c mod 64 < 64" by simp
  have c: "c div 64 * 64 + c mod 64 = c" by simp
  show ?thesis using d m c by (simp add: is_cont_def)
qed

lemma split_3_bytes:
  fixes c :: nat
  shows "c = c div 4096 * 4096 + c div 64 mod 64 * 64 + c mod 64"
proof -
  have "c div 4096 = c div 64 div 64"
    by (simp add: div_mult2_eq [symmetric])
  moreover have "c div 64 = c div 64 div 64 * 64 + c div 64 mod 64" by simp
  moreover have "c = c div 64 * 64 + c mod 64" by simp
  ultimately show ?thesis by linarith
qed

lemma split_4_bytes:
  fixes c :: nat
  shows "c = c div 262144 * 262144 + c div 4096 mod 64 * 4096 + c div 64 mod 64 * 64 + c mod 64"
proof -
  have "c div 262144 = c div 4096 div 64"
    by (simp add: div_mult2_eq [symmetric])
  moreover have "c div 4096 = c div 4096 div 64 * 64 + c div 4096 mod 64" by simp
  moreover have "c = c div 4096 * 4096 + c div 64 mod 64 * 64 + c mod 64" by (rule split_3_bytes)
  ultimately show ?thesis by linarith
qed

lemma utf8_next_3:
  assumes "0x800 \<le> c" "c < 0x10000" "\<not> is_surrogate c"
  shows "utf8_next ((0xE0 + c div 4096) # (0x80 + c div 64 mod 64) # (0x80 + c mod 64) # rest) = Decoded c 3"
proof -
  define a b r where "a = c div 4096" and "b = c div 64 mod 64" and "r = c mod 64"
  have c: "c = a * 4096 + b * 64 + r" unfolding a_def b_def r_def by (rule split_3_bytes)
  have b: "b < 64" and r: "r < 64" by (simp_all add: b_def r_def)
  have a: "a < 16" using assms(2) c by linarith
  have e0: "a = 0 \<Longrightarrow> 32 \<le> b" using assms(1) c r by linarith
  have s: "c < 0xD800 \<or> 0xDFFF < c" using assms(3) unfolding is_surrogate_def by linarith
  have ed: "a = 13 \<Longrightarrow> b < 32" using s c r b by linarith
  have "utf8_next ((0xE0 + a) # (0x80 + b) # (0x80 + r) # rest) = Decoded (a * 4096 + b * 64 + r) 3"
    using a b r e0 ed by (auto simp: is_cont_def)
  then show ?thesis unfolding c [symmetric] unfolding a_def b_def r_def .
qed

lemma utf8_next_4:
  assumes "0x10000 \<le> c" "c < 0x110000"
  shows "utf8_next ((0xF0 + c div 262144) # (0x80 + c div 4096 mod 64) # (0x80 + c div 64 mod 64)
           # (0x80 + c mod 64) # rest) = Decoded c 4"
proof -
  define a b1 b2 r where "a = c div 262144" and "b1 = c div 4096 mod 64" and "b2 = c div 64 mod 64"
    and "r = c mod 64"
  have c: "c = a * 262144 + b1 * 4096 + b2 * 64 + r" unfolding a_def b1_def b2_def r_def by (rule split_4_bytes)
  have b1: "b1 < 64" and b2: "b2 < 64" and r: "r < 64" by (simp_all add: b1_def b2_def r_def)
  have a: "a < 5" using assms(2) c by linarith
  have f0: "a = 0 \<Longrightarrow> 16 \<le> b1" using assms(1) c r b2 by linarith
  have f4: "a = 4 \<Longrightarrow> b1 < 16" using assms(2) c by linarith
  have "utf8_next ((0xF0 + a) # (0x80 + b1) # (0x80 + b2) # (0x80 + r) # rest)
          = Decoded (a * 262144 + b1 * 4096 + b2 * 64 + r) 4"
    using a b1 b2 r f0 f4 by (auto simp: is_cont_def)
  then show ?thesis unfolding c [symmetric] unfolding a_def b1_def b2_def r_def .
qed

lemma bytes_decode_utf8_encode_char:
  assumes "c < 0x110000" "\<not> is_surrogate c"
  shows "bytes_decode_utf8 (utf8_encode_char c @ rest) = map_option ((#) c) (bytes_decode_utf8 rest)"
proof -
  consider "c < 0x80" | "0x80 \<le> c" "c < 0x800" | "0x800 \<le> c" "c < 0x10000" | "0x10000 \<le> c"
    by linarith
  then show ?thesis
  proof cases
    case 1
    then show ?thesis by simp
  next
    case 2
    then have "utf8_encode_char c = [0xC0 + c div 64, 0x80 + c mod 64]" by simp
    then show ?thesis using utf8_next_2 [OF 2, of rest] by (simp del: utf8_next.simps utf8_encode_char.simps)
  next
    case 3
    then have "utf8_encode_char c = [0xE0 + c div 4096, 0x80 + c div 64 mod 64, 0x80 + c mod 64]" by simp
    then show ?thesis using utf8_next_3 [OF 3 assms(2), of rest]
      by (simp del: utf8_next.simps utf8_encode_char.simps)
  next
    case 4
    then have "utf8_encode_char c =
        [0xF0 + c div 262144, 0x80 + c div 4096 mod 64, 0x80 + c div 64 mod 64, 0x80 + c mod 64]" by simp
    then show ?thesis using utf8_next_4 [OF 4 assms(1), of rest]
      by (simp del: utf8_next.simps utf8_encode_char.simps)
  qed
qed

lemma bytes_decode_utf8_encode:
  "is_pystr s \<Longrightarrow> \<not> list_ex is_surrogate s \<Longrightarrow> bytes_decode_utf8 (concat (map utf8_encode_char s)) = Some s"
proof (induction s)
  case Nil
  then show ?case by simp
next
  case (Cons c s)
  then have c: "c < 0x110000" "\<not> is_surrogate c" and s: "is_pystr s" "\<not> list_ex is_surrogate s"
    by (simp_all add: is_pystr_def)
  have "concat (map utf8_encode_char (c # s)) = utf8_encode_char c @ concat (map utf8_encode_char s)"
    by (simp del: utf8_encode_char.simps)
  then have "bytes_decode_utf8 (concat (map utf8_encode_char (c # s)))
        = map_option ((#) c) (bytes_decode_utf8 (concat (map utf8_encode_char s)))"
    using bytes_decode_utf8_encode_char [OF c] by (simp only:)
  also have "\<dots> = Some (c # s)" using Cons.IH [OF s] by (simp only: option.map)
  finally show ?case .
qed

lemma str_encode_utf8_roundtrip:
  "is_pystr s \<Longrightarrow> str_encode_utf8 s = Inr data \<Longrightarrow> bytes_decode_utf8 data = Some s"
  using bytes_decode_utf8_encode [of s] by (auto simp: str_encode_utf8_def split: if_splits)

subsection \<open>Reading back what was written\<close>

lemma after_transcription_success_fault:
  assumes "after_transcription env b s = (Inr loc, s')"
  shows "get_object_fault env = Inr ()"
  using assms
  by (cases "get_object_fault env")
     (auto simp: stage_defs summary_encode_def prog_simps split: sum.splits option.splits prod.splits)

lemma result_writer_success:
  assumes "result_writer env b (Some summary) s = (Inr loc, s')"
  shows "\<exists>data. str_encode_utf8 summary = Inr data
           \<and> objects s' (b, summary_key env) = Some \<lparr>body = data, content_type = lit ''text/plain''\<rparr>"
  using assms
  by (auto simp: result_writer_def s3_put_object_def summary_encode_def prog_simps
      split: sum.splits option.splits prod.splits)

lemma s3_get_object_present:
  assumes "get_object_fault env = Inr ()" and "objects s (b, k) = Some obj"
  shows "s3_get_object env b k s = (Inr (body obj), s\<lparr>calls := calls s @ [GetObject b k]\<rparr>)"
  using assms by (simp add: s3_get_object_def prog_simps)

subsection \<open>What unquoting does to the length\<close>

lemma length_decode_replace: "length (bytes_decode_utf8_replace bs) \<le> length bs"
proof (induction bs rule: bytes_decode_utf8_replace.induct)
  case 1
  then show ?case by simp
next
  case (2 b bs)
  show ?case
  proof (cases "utf8_next (b # bs)")
    case (Decoded c n)
    then have "length (bytes_decode_utf8_replace (drop (n - 1) bs)) \<le> length (drop (n - 1) bs)"
      using 2 by blast
    then show ?thesis using Decoded by (simp del: utf8_next.simps)
  next
    case (Invalid n)
    then have "length (bytes_decode_utf8_replace (drop (n - 1) bs)) \<le> length (drop (n - 1) bs)"
      using 2 by blast
    then show ?thesis using Invalid by (simp del: utf8_next.simps)
  qed
qed

lemma decode_replace_ascii: "list_all is_ascii r \<Longrightarrow> bytes_decode_utf8_replace r = r"
  by (induction r) (simp_all add: is_ascii_def)

lemma length_unquote_to_bytes: "length (unquote_to_bytes r) \<le> length r"
  by (induction r rule: unquote_to_bytes.induct) auto

lemma unquote_to_bytes_same_length:
  "length (unquote_to_bytes r) = length r \<Longrightarrow> unquote_to_bytes r = r"
proof (induction r rule: unquote_to_bytes.induct)
  case (1 c h1 h2 rest)
  show ?case
  proof (cases "c = 37 \<and> is_hexdig h1 \<and> is_hexdig h2")
    case True
    have "length (unquote_to_bytes rest) \<le> length rest" by (rule length_unquote_to_bytes)
    then show ?thesis using 1(3) True by simp
  next
    case False
    then show ?thesis using 1 by auto
  qed
qed auto

lemma concat_ascii_runs: "concat (map snd (ascii_runs s)) = s"
  by (induction s) (auto split: list.splits)

lemma ascii_runs_ascii: "(True, r) \<in> set (ascii_runs s) \<Longrightarrow> list_all is_ascii r"
  by (induction s arbitrary: r) (auto split: list.splits if_splits)

lemma unquote_runs: "37 \<in> set s \<Longrightarrow> unquote s = concat (map unquote_run (ascii_runs s))"
proof -
  have "(\<lambda>(a, r). if a then bytes_decode_utf8_replace (unquote_to_bytes r) else r) = unquote_run"
    by (auto simp: unquote_run_def fun_eq_iff)
  then show "37 \<in> set s \<Longrightarrow> unquote s = concat (map unquote_run (ascii_runs s))"
    by (simp add: unquote_def)
qed

lemma length_unquote_run:
  "length (unquote_run p) \<le> length (snd p)"
  using length_decode_replace [of "unquote_to_bytes (snd p)"] length_unquote_to_bytes [of "snd p"]
  by (simp add: unquote_run_def)

lemma unquote_run_same_length:
  assumes "p \<in> set (ascii_runs s)" "length (unquote_run p) = length (snd p)"
  shows "unquote_run p = snd p"
proof (cases "fst p")
  case False
  then show ?thesis by (simp add: unquote_run_def)
next
  case True
  then have p: "p = (True, snd p)" by (cases p) simp
  then have ascii: "list_all is_ascii (snd p)" using assms(1) ascii_runs_ascii by metis
  have "length (bytes_decode_utf8_replace (unquote_to_bytes (snd p))) = length (snd p)"
    using assms(2) True by (simp add: unquote_run_def)
  then have "length (unquote_to_bytes (snd p)) = length (snd p)"
    using length_decode_replace [of "unquote_to_bytes (snd p)"] length_unquote_to_bytes [of "snd p"]
    by linarith
  then have "unquote_to_bytes (snd p) = snd p" by (rule unquote_to_bytes_same_length)
  then show ?thesis using True ascii by (simp add: unquote_run_def decode_replace_ascii)
qed

lemma concat_shrinks:
  assumes "\<And>p. p \<in> set ps \<Longrightarrow> length (g p) \<le> length (f p)"
    and "\<And>p. p \<in> set ps \<Longrightarrow> length (g p) = length (f p) \<Longrightarrow> g p = f p"
  shows "concat (map g ps) = concat (map f ps) \<or> length (concat (map g ps)) < length (concat (map f ps))"
  using assms
proof (induction ps)
  case Nil
  then show ?case by simp
next
  case (Cons p ps)
  have le: "length (g p) \<le> length (f p)" using Cons.prems(1) by simp
  have rest: "concat (map g ps) = concat (map f ps) \<or> length (concat (map g ps)) < length (concat (map f ps))"
    using Cons by simp
  show ?case
  proof (cases "length (g p) = length (f p)")
    case True
    then have "g p = f p" using Cons.prems(2) by simp
    then show ?thesis using rest by auto
  next
    case False
    then have "length (g p) < length (f p)" using le by simp
    moreover have "length (concat (map g ps)) \<le> length (concat (map f ps))" using rest by auto
    ultimately show ?thesis by simp
  qed
qed

lemma unquote_same_or_shorter: "unquote s = s \<or> length (unquote s) < length s"
proof (cases "37 \<in> set s")
  case False
  then show ?thesis by (simp add: unquote_def)
next
  case True
  have "concat (map unquote_run (ascii_runs s)) = concat (map snd (ascii_runs s))
      \<or> length (concat (map unquote_run (ascii_runs s))) < length (concat (map snd (ascii_runs s)))"
    by (rule concat_shrinks) (simp_all add: length_unquote_run unquote_run_same_length)
  then show ?thesis by (simp add: unquote_runs [OF True] concat_ascii_runs)
qed

lemma unquote_plus_changes_plus:
  assumes "43 \<in> set k"
  shows "unquote_plus k \<noteq> k"
proof -
  let ?r = "map (\<lambda>c. if c = 43 then 32 else c) k"
  have no: "43 \<notin> set ?r" by auto
  have len: "length ?r = length k" by simp
  from unquote_same_or_shorter [of ?r] show ?thesis
  proof
    assume "unquote ?r = ?r"
    then show ?thesis using no assms by (metis unquote_plus_def)
  next
    assume "length (unquote ?r) < length ?r"
    then show ?thesis using len by (auto simp: unquote_plus_def)
  qed
qed

lemma unquote_plus_no_percent:
  assumes "37 \<notin> set k"
  shows "unquote_plus k = map (\<lambda>c. if c = 43 then 32 else c) k"
proof -
  have "37 \<notin> set (map (\<lambda>c. if c = 43 then 32 else c) k)" using assms by auto
  then show ?thesis by (simp add: unquote_plus_def unquote_def)
qed

subsection \<open>The first record\<close>

lemma event_decoder_of_first_record:
  assumes "first_record event = Some (b, k)"
  shows "event_decoder event = Inr (JStr b, unquote_plus k)"
proof -
  from assms obtain rs r0 s3 bkt obj where
    "member_of event (lit ''Records'') = Some rs" "first_of rs = Some r0"
    "member_of r0 (lit ''s3'') = Some s3"
    "member_of s3 (lit ''bucket'') = Some bkt" "member_of bkt (lit ''name'') = Some (JStr b)"
    "member_of s3 (lit ''object'') = Some obj" "member_of obj (lit ''key'') = Some (JStr k)"
    by (auto simp: first_record_def split: Option.bind_splits option.splits json.splits)
  then show ?thesis
    by (simp add: event_decoder_def and_then_def subscript_key_member subscript_0_first)
qed

lemma first_record_s3_event: "first_record (s3_event b k) = Some (b, k)"
  by (simp add: first_record_def s3_event_def lit_def)

section \<open>Claims\<close>

text \<open>
  C1. For every event, environment and starting state, the handler returns one of two
  dicts. Either the body of the \<open>try\<close> ran to its end, and the dict is
  \<open>{"status": "success", "summary_file": "s3://<bucket>/<summary key>"}\<close> with the bucket
  of the event; or some step raised an exception \<open>e\<close>, and the dict is
  \<open>{"error": str(e)}\<close>, which has no \<open>status\<close> key. The exceptions are those of class
  \<open>Exception\<close>, which is what line 93 catches.
\<close>

theorem handler_result_shapes:
  "(\<exists>b key. event_decoder event = Inr (JStr b, key)
        \<and> fst (try_body env event s) = Inr (lit ''s3://'' @ b @ lit ''/'' @ summary_key env)
        \<and> fst (lambda_handler env event s) =
            [(lit ''status'', lit ''success''),
             (lit ''summary_file'', lit ''s3://'' @ b @ lit ''/'' @ summary_key env)])
   \<or> (\<exists>e. fst (try_body env event s) = Inl e
        \<and> fst (lambda_handler env event s) = [(lit ''error'', str_exc e)]
        \<and> map_of (fst (lambda_handler env event s)) (lit ''status'') = None)"
proof (cases "fst (try_body env event s)")
  case (Inl e)
  then have "try_body env event s = (Inl e, snd (try_body env event s))"
    by (metis prod.collapse)
  then have "fst (lambda_handler env event s) = [(lit ''error'', str_exc e)]"
    by (simp add: handler_of_failure)
  moreover have "map_of [(lit ''error'', str_exc e)] (lit ''status'') = None"
    by (simp add: lit_def)
  ultimately show ?thesis using Inl by auto
next
  case (Inr loc)
  then have body: "try_body env event s = (Inr loc, snd (try_body env event s))"
    by (metis prod.collapse)
  then obtain b key tr where dec: "event_decoder event = Inr (JStr b, key)"
    and after: "after_transcription env b (s\<lparr>calls := calls s @ tr\<rparr>) = (Inr loc, snd (try_body env event s))"
    using try_body_success by blast
  have "loc = s3_uri b (summary_key env)"
    using after_transcription_success [OF after] by blast
  then have loc: "loc = lit ''s3://'' @ b @ lit ''/'' @ summary_key env"
    by (simp add: s3_uri_def)
  have "fst (lambda_handler env event s) = [(lit ''status'', lit ''success''), (lit ''summary_file'', loc)]"
    using body by (simp add: handler_of_success)
  then show ?thesis using dec Inr loc by auto
qed

theorem handler_result_shapes_witness:
  "fst (lambda_handler (scenario_env scenario_answers) (JList []) (scenario_state scenario_store)) =
     [(lit ''error'', lit ''list indices must be integers or slices, not str'')]
   \<and> fst (lambda_handler (scenario_env scenario_answers) scenario_event (scenario_state scenario_store)) =
     [(lit ''status'', lit ''success''),
      (lit ''summary_file'', lit ''s3://medrecs/summaries/twilio-01234567_summary.txt'')]"
proof -
  have bad: "event_decoder (JList []) = Inl (Exc TypeError (lit ''list indices must be integers or slices, not str''))"
    by (simp add: event_decoder_def and_then_def)
  then have "fst (try_body (scenario_env scenario_answers) (JList []) (scenario_state scenario_store))
      = Inl (Exc TypeError (lit ''list indices must be integers or slices, not str''))"
    by (simp add: try_body_def then_do_def lift_def)
  then have first: "fst (lambda_handler (scenario_env scenario_answers) (JList []) (scenario_state scenario_store)) =
     [(lit ''error'', lit ''list indices must be integers or slices, not str'')]"
    using handler_result_shapes [of "JList []" "scenario_env scenario_answers" "scenario_state scenario_store"]
    by auto
  have key: "summary_key (scenario_env scenario_answers) = lit ''summaries/twilio-01234567_summary.txt''"
    by (simp add: summary_key_def job_name_def scenario_env_def lit_def)
  have "map_of (fst (lambda_handler (scenario_env scenario_answers) scenario_event (scenario_state scenario_store)))
          (lit ''status'') \<noteq> None \<Longrightarrow>
        fst (lambda_handler (scenario_env scenario_answers) scenario_event (scenario_state scenario_store)) =
         [(lit ''status'', lit ''success''),
          (lit ''summary_file'', lit ''s3://medrecs/summaries/twilio-01234567_summary.txt'')]"
    using handler_result_shapes [of scenario_event "scenario_env scenario_answers" "scenario_state scenario_store"]
    by (auto simp: scenario_decoded key) (simp add: lit_def)
  moreover have "map_of (fst (lambda_handler (scenario_env scenario_answers) scenario_event (scenario_state scenario_store)))
          (lit ''status'') \<noteq> None"
  proof -
    have before: "\<forall>j<2. \<exists>st. get_transcription_job (scenario_env scenario_answers) j = Inr st \<and> \<not> terminal st"
      by (simp add: scenario_env_def scenario_answers_def IN_PROGRESS_not_terminal)
    have at: "get_transcription_job (scenario_env scenario_answers) 2 = Inr COMPLETED"
      by (simp add: scenario_env_def scenario_answers_def)
    have start: "start_transcription_job (scenario_env scenario_answers) = Inr ()"
      by (simp add: scenario_env_def)
    have two: "(2::nat) < 30" by simp
    show ?thesis
      by (simp add: lambda_handler_def try_body_completed [OF scenario_decoded start two before at]
          scenario_after_transcription scenario_state_def)
  qed
  ultimately show ?thesis using first by blast
qed

text \<open>
  C2, at an input where it fails. Every status query answers \<open>IN_PROGRESS\<close>, and the
  transcript is in the store when the handler reads it (the job finished during the last
  sleep). The status sequence has never reached \<open>COMPLETED\<close>, yet the handler calls the
  summarizer, writes the summary and reports success.
\<close>

theorem summary_without_completed:
  "get_transcription_job (scenario_env (\<lambda>i. Inr IN_PROGRESS)) = (\<lambda>i. Inr IN_PROGRESS)
   \<and> IN_PROGRESS \<noteq> COMPLETED
   \<and> lambda_handler (scenario_env (\<lambda>i. Inr IN_PROGRESS)) scenario_event (scenario_state scenario_store) =
     ([(lit ''status'', lit ''success''),
       (lit ''summary_file'', lit ''s3://medrecs/summaries/twilio-01234567_summary.txt'')],
      \<lparr>calls =
         start_call (scenario_env (\<lambda>i. Inr IN_PROGRESS)) (lit ''medrecs'') (lit ''calls/visit1.wav'')
         # poll_calls (scenario_env (\<lambda>i. Inr IN_PROGRESS)) 30
         @ [GetObject (lit ''medrecs'') (lit ''transcripts/twilio-01234567.json''),
            ChatCompletionsCreate (lit ''gpt-4o-mini'')
              (lit ''Summarize medical consultations clearly and concisely.'')
              (JStr (lit ''Patient reports mild fever.'')) 300,
            PutObject (lit ''medrecs'') (lit ''summaries/twilio-01234567_summary.txt'')
              (lit ''Patient has a mild fever.'') (lit ''text/plain'')],
       objects = scenario_store((lit ''medrecs'', lit ''summaries/twilio-01234567_summary.txt'') \<mapsto>
            \<lparr>body = lit ''Patient has a mild fever.'', content_type = lit ''text/plain''\<rparr>)\<rparr>)"
proof -
  have answers: "get_transcription_job (scenario_env (\<lambda>i. Inr IN_PROGRESS)) = (\<lambda>i. Inr IN_PROGRESS)"
    by (simp add: scenario_env_def)
  have start: "start_transcription_job (scenario_env (\<lambda>i. Inr IN_PROGRESS)) = Inr ()"
    by (simp add: scenario_env_def)
  have all: "\<forall>j<30. get_transcription_job (scenario_env (\<lambda>i. Inr IN_PROGRESS)) j = Inr ((\<lambda>_. IN_PROGRESS) j)
               \<and> \<not> terminal ((\<lambda>_. IN_PROGRESS) j)"
    by (simp add: answers IN_PROGRESS_not_terminal)
  have ne: "IN_PROGRESS \<noteq> COMPLETED"
    using IN_PROGRESS_not_terminal by (auto simp: terminal_def)
  have "lambda_handler (scenario_env (\<lambda>i. Inr IN_PROGRESS)) scenario_event (scenario_state scenario_store) =
     ([(lit ''status'', lit ''success''),
       (lit ''summary_file'', lit ''s3://medrecs/summaries/twilio-01234567_summary.txt'')],
      \<lparr>calls =
         start_call (scenario_env (\<lambda>i. Inr IN_PROGRESS)) (lit ''medrecs'') (lit ''calls/visit1.wav'')
         # poll_calls (scenario_env (\<lambda>i. Inr IN_PROGRESS)) 30
         @ [GetObject (lit ''medrecs'') (lit ''transcripts/twilio-01234567.json''),
            ChatCompletionsCreate (lit ''gpt-4o-mini'')
              (lit ''Summarize medical consultations clearly and concisely.'')
              (JStr (lit ''Patient reports mild fever.'')) 300,
            PutObject (lit ''medrecs'') (lit ''summaries/twilio-01234567_summary.txt'')
              (lit ''Patient has a mild fever.'') (lit ''text/plain'')],
       objects = scenario_store((lit ''medrecs'', lit ''summaries/twilio-01234567_summary.txt'') \<mapsto>
            \<lparr>body = lit ''Patient has a mild fever.'', content_type = lit ''text/plain''\<rparr>)\<rparr>)"
    by (simp add: lambda_handler_def try_body_exhausted [OF scenario_decoded start all]
        scenario_after_transcription scenario_state_def)
  with answers ne show ?thesis by blast
qed







text \<open>
  C6. Let the transcript document the handler reads parse to a value \<open>j\<close> in which the
  path \<open>results.transcripts[0].transcript\<close> is absent (a key is missing, the list is empty,
  or a value on the way is not an object or a list). Then line 66 raises a \<open>KeyError\<close>,
  \<open>IndexError\<close> or \<open>TypeError\<close>; the fetcher returns that exception and nothing in its
  place; and the handler returns an error dict, without a call to the summarizer, without a
  write, and with the store unchanged.
\<close>

theorem missing_transcript_is_fatal:
  assumes "transcript_at_path j = None"
    and "event_decoder event = Inr (JStr b, key)"
    and "objects s (b, transcript_key env) = Some obj"
    and "json_loads env (body obj) = Inr j"
  shows "\<exists>e. transcript_text j = Inl e \<and> shape_error e
           \<and> (\<forall>s1. get_object_fault env = Inr () \<and> objects s1 = objects s \<longrightarrow>
                 transcript_fetcher env b s1 =
                   (Inl e, s1\<lparr>calls := calls s1 @ [GetObject b (transcript_key env)]\<rparr>))
           \<and> (\<exists>m. fst (lambda_handler env event s) = [(lit ''error'', m)])
           \<and> \<not> list_ex is_summarizer_call (made s (snd (lambda_handler env event s)))
           \<and> \<not> list_ex is_write (made s (snd (lambda_handler env event s)))
           \<and> objects (snd (lambda_handler env event s)) = objects s"
proof -
  obtain e where e: "transcript_text j = Inl e" "shape_error e"
    using transcript_text_absent [OF assms(1)] by blast
  have fetch: "\<forall>s1. get_object_fault env = Inr () \<and> objects s1 = objects s \<longrightarrow>
                 transcript_fetcher env b s1 =
                   (Inl e, s1\<lparr>calls := calls s1 @ [GetObject b (transcript_key env)]\<rparr>)"
    using transcript_fetcher_shape_error(1) [OF _ _ assms(4) e(1)] assms(3) by simp
  obtain e' tr where body: "try_body env event s = (Inl e', s\<lparr>calls := calls s @ tr\<rparr>)"
    and tr: "\<not> list_ex is_summarizer_call tr" "\<not> list_ex is_write tr"
    using try_body_absent [OF assms(2,3,4) e(1)] by blast
  have h: "lambda_handler env event s = ([(lit ''error'', str_exc e')], s\<lparr>calls := calls s @ tr\<rparr>)"
    using body by (rule handler_of_failure)
  have "\<exists>m. fst (lambda_handler env event s) = [(lit ''error'', m)]"
    unfolding h by simp
  moreover have "made s (snd (lambda_handler env event s)) = tr"
    unfolding h by (simp add: made_append)
  moreover have "objects (snd (lambda_handler env event s)) = objects s"
    unfolding h by simp
  ultimately show ?thesis using e fetch tr by auto
qed

theorem missing_transcript_is_fatal_witness:
  "transcript_at_path empty_transcripts = None
   \<and> lambda_handler ((scenario_env scenario_answers)\<lparr>json_loads := \<lambda>data. Inr empty_transcripts\<rparr>)
       scenario_event (scenario_state scenario_store) =
     ([(lit ''error'', lit ''list index out of range'')],
      \<lparr>calls =
         start_call (scenario_env scenario_answers) (lit ''medrecs'') (lit ''calls/visit1.wav'')
         # poll_calls (scenario_env scenario_answers) 2
         @ [GetTranscriptionJob (lit ''twilio-01234567''),
            GetObject (lit ''medrecs'') (lit ''transcripts/twilio-01234567.json'')],
       objects = scenario_store\<rparr>)"
proof -
  let ?env = "(scenario_env scenario_answers)\<lparr>json_loads := \<lambda>data. Inr empty_transcripts\<rparr>"
  have absent: "transcript_at_path empty_transcripts = None"
    by (simp add: transcript_at_path_def empty_transcripts_def lit_def)
  have tk: "transcript_key ?env = lit ''transcripts/twilio-01234567.json''"
    by (simp add: transcript_key_def job_name_def scenario_env_def lit_def)
  have obj: "objects (scenario_state scenario_store) (lit ''medrecs'', transcript_key ?env)
      = Some \<lparr>body = scenario_transcript, content_type = lit ''application/json''\<rparr>"
    by (simp add: tk scenario_state_def scenario_store_def)
  have loads: "json_loads ?env (body \<lparr>body = scenario_transcript, content_type = lit ''application/json''\<rparr>)
      = Inr empty_transcripts"
    by simp
  from missing_transcript_is_fatal [OF absent scenario_decoded obj loads]
  obtain e where e: "transcript_text empty_transcripts = Inl e"
    and fetch: "\<And>s1. get_object_fault ?env = Inr () \<Longrightarrow> objects s1 = objects (scenario_state scenario_store) \<Longrightarrow>
                 transcript_fetcher ?env (lit ''medrecs'') s1 =
                   (Inl e, s1\<lparr>calls := calls s1 @ [GetObject (lit ''medrecs'') (transcript_key ?env)]\<rparr>)"
    by blast
  have e_val: "e = Exc IndexError (lit ''list index out of range'')"
    using e by (simp add: transcript_text_def empty_transcripts_def and_then_def)
  have before: "\<forall>j<2. \<exists>st. get_transcription_job ?env j = Inr st \<and> \<not> terminal st"
    by (simp add: scenario_env_def scenario_answers_def IN_PROGRESS_not_terminal)
  have at: "get_transcription_job ?env 2 = Inr COMPLETED"
    by (simp add: scenario_env_def scenario_answers_def)
  have start: "start_transcription_job ?env = Inr ()"
    by (simp add: scenario_env_def)
  have fault: "get_object_fault ?env = Inr ()"
    by (simp add: scenario_env_def)
  have two: "(2::nat) < 30" by simp
  have names: "job_name ?env = lit ''twilio-01234567''"
    "start_call ?env = start_call (scenario_env scenario_answers)"
    "poll_calls ?env = poll_calls (scenario_env scenario_answers)"
    by (simp_all add: job_name_def start_call_def poll_calls_def transcript_key_def media_format_def
        scenario_env_def fun_eq_iff lit_def)
  have "lambda_handler ?env scenario_event (scenario_state scenario_store) =
     ([(lit ''error'', lit ''list index out of range'')],
      \<lparr>calls =
         start_call (scenario_env scenario_answers) (lit ''medrecs'') (lit ''calls/visit1.wav'')
         # poll_calls (scenario_env scenario_answers) 2
         @ [GetTranscriptionJob (lit ''twilio-01234567''),
            GetObject (lit ''medrecs'') (lit ''transcripts/twilio-01234567.json'')],
       objects = scenario_store\<rparr>)"
    by (simp add: lambda_handler_def try_body_completed [OF scenario_decoded start two before at]
        after_transcription_def then_do_apply fetch [OF fault] e_val tk names scenario_state_def)
  with absent show ?thesis by blast
qed

text \<open>
  C7, as stated, fails on a key with a plus sign: the payload key \<open>a+b.wav\<close> has no
  escape, so percent-decoding leaves it as it is, but the decoder returns \<open>a b.wav\<close>.
\<close>

theorem plus_key_not_percent_decoded:
  "first_record (s3_event (lit ''medrecs'') (lit ''a+b.wav'')) = Some (lit ''medrecs'', lit ''a+b.wav'')
   \<and> percent_decoded (lit ''a+b.wav'') = lit ''a+b.wav''
   \<and> event_decoder (s3_event (lit ''medrecs'') (lit ''a+b.wav'')) = Inr (JStr (lit ''medrecs''), lit ''a b.wav'')
   \<and> event_decoder (s3_event (lit ''medrecs'') (lit ''a+b.wav''))
       \<noteq> Inr (JStr (lit ''medrecs''), percent_decoded (lit ''a+b.wav''))"
  by (simp add: first_record_s3_event event_decoder_s3_event percent_decoded_def unquote_plus_def unquote_def lit_def)

text \<open>
  C7, amended. For every payload whose first record names a bucket and a key, the decoder
  returns that bucket and the key with every plus sign replaced by a space and then
  percent-decoded; for a key without a plus sign this is its percent-decoded key. The
  records after the first one play no part, and the key \<open>a%2Bb.wav\<close> decodes to
  \<open>a+b.wav\<close>.
\<close>

theorem event_decoder_first_record:
  assumes "first_record event = Some (b, k)"
  shows "event_decoder event = Inr (JStr b, percent_decoded (map (\<lambda>c. if c = 43 then 32 else c) k))
       \<and> (43 \<notin> set k \<longrightarrow> event_decoder event = Inr (JStr b, percent_decoded k))
       \<and> event_decoder (JDict [(lit ''Records'', JList (r # others))])
           = event_decoder (JDict [(lit ''Records'', JList [r])])
       \<and> event_decoder (s3_event b (lit ''a%2Bb.wav'')) = Inr (JStr b, lit ''a+b.wav'')"
proof -
  have same: "43 \<notin> set k \<Longrightarrow> map (\<lambda>c. if c = 43 then 32 else c) k = k"
    by (induction k) auto
  have ex: "unquote_plus (lit ''a%2Bb.wav'') = lit ''a+b.wav''"
    by (simp add: unquote_plus_def unquote_def lit_def is_ascii_def is_hexdig_def hexval_def)
  have first: "event_decoder (JDict [(lit ''Records'', JList (r # others))])
           = event_decoder (JDict [(lit ''Records'', JList [r])])"
    by (simp add: event_decoder_def and_then_def)
  have plain: "43 \<notin> set k \<longrightarrow> unquote_plus k = unquote k"
    using same by (simp add: unquote_plus_def)
  have dec: "event_decoder event = Inr (JStr b, unquote (map (\<lambda>c. if c = 43 then 32 else c) k))"
    using event_decoder_of_first_record [OF assms] by (simp add: unquote_plus_def)
  show ?thesis
    using dec plain first by (simp add: percent_decoded_def event_decoder_s3_event ex)
     (simp add: unquote_plus_def)
qed

theorem event_decoder_first_record_witness:
  "first_record (s3_event (lit ''medrecs'') (lit ''my+file%2B1.wav''))
     = Some (lit ''medrecs'', lit ''my+file%2B1.wav'')
   \<and> event_decoder (s3_event (lit ''medrecs'') (lit ''my+file%2B1.wav''))
     = Inr (JStr (lit ''medrecs''), lit ''my file+1.wav'')"
proof -
  have "percent_decoded (map (\<lambda>c. if c = 43 then 32 else c) (lit ''my+file%2B1.wav'')) = lit ''my file+1.wav''"
    by (simp add: percent_decoded_def unquote_def lit_def is_ascii_def is_hexdig_def hexval_def)
  then show ?thesis
    using event_decoder_first_record [OF first_record_s3_event, of "lit ''medrecs''" "lit ''my+file%2B1.wav''"]
    by (simp add: first_record_s3_event)
qed

text \<open>
  C8. Round trip. Whenever the result writer has written a summary (a Python string,
  that is, code points below \<open>0x110000\<close>), reading the object back from the same bucket
  and key gives bytes that decode as UTF-8 to that very string. For a whole run: when the
  handler reports success, the object at the summary key decodes to the string the
  summarizer returned. (A summary with a lone surrogate is never written: encoding it
  raises, and the handler reports the error.)
\<close>

theorem summary_round_trip:
  "(\<forall>summary b s0 loc s1 (env'::env).
      is_pystr summary \<and> result_writer env b (Some summary) s0 = (Inr loc, s1)
      \<and> get_object_fault env' = Inr ()
      \<longrightarrow> (\<exists>data s2. s3_get_object env' b (summary_key env) s1 = (Inr data, s2)
                    \<and> bytes_decode_utf8 data = Some summary))
   \<and> (map_of (fst (lambda_handler env event s)) (lit ''status'') = Some (lit ''success'')
      \<longrightarrow> (\<exists>b key transcript summary.
             event_decoder event = Inr (JStr b, key)
           \<and> chat_completions_create env transcript = Inr (Some summary)
           \<and> (is_pystr summary
              \<longrightarrow> (\<exists>data s2.
                     s3_get_object env b (summary_key env) (snd (lambda_handler env event s)) = (Inr data, s2)
                   \<and> bytes_decode_utf8 data = Some summary))))"
proof (intro conjI allI impI)
  fix summary b s0 loc s1 and env' :: env
  assume h: "is_pystr summary \<and> result_writer env b (Some summary) s0 = (Inr loc, s1)
      \<and> get_object_fault env' = Inr ()"
  then obtain data where enc: "str_encode_utf8 summary = Inr data"
    and obj: "objects s1 (b, summary_key env) = Some \<lparr>body = data, content_type = lit ''text/plain''\<rparr>"
    using result_writer_success by blast
  have "bytes_decode_utf8 data = Some summary"
    using h enc by (intro str_encode_utf8_roundtrip) simp_all
  moreover have "s3_get_object env' b (summary_key env) s1 =
      (Inr data, s1\<lparr>calls := calls s1 @ [GetObject b (summary_key env)]\<rparr>)"
    using s3_get_object_present [OF _ obj] h by simp
  ultimately show "\<exists>data s2. s3_get_object env' b (summary_key env) s1 = (Inr data, s2)
                    \<and> bytes_decode_utf8 data = Some summary"
    by blast
next
  assume ok: "map_of (fst (lambda_handler env event s)) (lit ''status'') = Some (lit ''success'')"
  let ?s' = "snd (lambda_handler env event s)"
  obtain loc where body: "try_body env event s = (Inr loc, ?s')"
    using handler_success [OF ok] by blast
  then obtain b key tr where dec: "event_decoder event = Inr (JStr b, key)"
    and after: "after_transcription env b (s\<lparr>calls := calls s @ start_call env b key # tr\<rparr>) = (Inr loc, ?s')"
    using try_body_success_calls by blast
  let ?s1 = "s\<lparr>calls := calls s @ start_call env b key # tr\<rparr>"
  from after_transcription_success [OF after] obtain transcript summary data where
    chat: "chat_completions_create env transcript = Inr (Some summary)"
    and enc: "str_encode_utf8 summary = Inr data"
    and s': "?s' =
       ?s1\<lparr>calls := calls ?s1 @ [GetObject b (transcript_key env),
                      ChatCompletionsCreate (lit ''gpt-4o-mini'')
                        (lit ''Summarize medical consultations clearly and concisely.'') transcript 300,
                      PutObject b (summary_key env) data (lit ''text/plain'')],
            objects := (objects ?s1)((b, summary_key env) \<mapsto>
                      \<lparr>body = data, content_type = lit ''text/plain''\<rparr>)\<rparr>"
    by blast
  have obj: "objects ?s' (b, summary_key env) = Some \<lparr>body = data, content_type = lit ''text/plain''\<rparr>"
    by (subst s') simp
  have fault: "get_object_fault env = Inr ()"
    using after by (rule after_transcription_success_fault)
  have get: "s3_get_object env b (summary_key env) ?s' =
      (Inr data, ?s'\<lparr>calls := calls ?s' @ [GetObject b (summary_key env)]\<rparr>)"
    using s3_get_object_present [OF fault obj] by simp
  have "is_pystr summary \<longrightarrow> (\<exists>data s2.
                     s3_get_object env b (summary_key env) ?s' = (Inr data, s2)
                   \<and> bytes_decode_utf8 data = Some summary)"
    using get str_encode_utf8_roundtrip [OF _ enc] by blast
  with dec chat show "\<exists>b key transcript summary.
             event_decoder event = Inr (JStr b, key)
           \<and> chat_completions_create env transcript = Inr (Some summary)
           \<and> (is_pystr summary
              \<longrightarrow> (\<exists>data s2.
                     s3_get_object env b (summary_key env) ?s' = (Inr data, s2)
                   \<and> bytes_decode_utf8 data = Some summary))"
    by blast
qed

theorem summary_round_trip_witness:
  "is_pystr [233, 8364, 128512]
   \<and> result_writer (scenario_env scenario_answers) (lit ''medrecs'') (Some [233, 8364, 128512])
       (scenario_state scenario_store) =
     (Inr (lit ''s3://medrecs/summaries/twilio-01234567_summary.txt''),
      \<lparr>calls = [PutObject (lit ''medrecs'') (lit ''summaries/twilio-01234567_summary.txt'')
                  [195, 169, 226, 130, 172, 240, 159, 152, 128] (lit ''text/plain'')],
       objects = scenario_store((lit ''medrecs'', lit ''summaries/twilio-01234567_summary.txt'') \<mapsto>
            \<lparr>body = [195, 169, 226, 130, 172, 240, 159, 152, 128], content_type = lit ''text/plain''\<rparr>)\<rparr>)
   \<and> bytes_decode_utf8 [195, 169, 226, 130, 172, 240, 159, 152, 128] = Some [233, 8364, 128512]"
proof -
  let ?env = "scenario_env scenario_answers"
  let ?s1 = "\<lparr>calls = [PutObject (lit ''medrecs'') (lit ''summaries/twilio-01234567_summary.txt'')
                  [195, 169, 226, 130, 172, 240, 159, 152, 128] (lit ''text/plain'')],
       objects = scenario_store((lit ''medrecs'', lit ''summaries/twilio-01234567_summary.txt'') \<mapsto>
            \<lparr>body = [195, 169, 226, 130, 172, 240, 159, 152, 128], content_type = lit ''text/plain''\<rparr>)\<rparr>"
  have str: "is_pystr [233, 8364, 128512]" by (simp add: is_pystr_def)
  have key: "summary_key ?env = lit ''summaries/twilio-01234567_summary.txt''"
    by (simp add: summary_key_def job_name_def scenario_env_def lit_def)
  have enc: "str_encode_utf8 [233, 8364, 128512] = Inr [195, 169, 226, 130, 172, 240, 159, 152, 128]"
    by (simp add: str_encode_utf8_def is_surrogate_def)
  have put: "put_object_fault ?env = Inr ()" and fault: "get_object_fault ?env = Inr ()"
    by (simp_all add: scenario_env_def)
  have written: "result_writer ?env (lit ''medrecs'') (Some [233, 8364, 128512]) (scenario_state scenario_store) =
     (Inr (lit ''s3://medrecs/summaries/twilio-01234567_summary.txt''), ?s1)"
    by (simp add: result_writer_def s3_put_object_def summary_encode_def prog_simps enc key put
        scenario_state_def s3_uri_def) (simp add: lit_def)
  have rd: "s3_get_object ?env (lit ''medrecs'') (summary_key ?env) ?s1 =
     (Inr [195, 169, 226, 130, 172, 240, 159, 152, 128],
      ?s1\<lparr>calls := calls ?s1 @ [GetObject (lit ''medrecs'') (summary_key ?env)]\<rparr>)"
    by (simp add: s3_get_object_def prog_simps fault key)
  from summary_round_trip [of ?env scenario_event "scenario_state scenario_store", THEN conjunct1,
      rule_format, of "[233, 8364, 128512]" "lit ''medrecs''" "scenario_state scenario_store" _ ?s1 ?env]
    str written fault
  obtain data s2 where "s3_get_object ?env (lit ''medrecs'') (summary_key ?env) ?s1 = (Inr data, s2)"
    and "bytes_decode_utf8 data = Some [233, 8364, 128512]"
    by blast
  with rd have "bytes_decode_utf8 [195, 169, 226, 130, 172, 240, 159, 152, 128] = Some [233, 8364, 128512]"
    by simp
  with str written show ?thesis by blast
qed

text \<open>
  C9. Whenever the handler reports success, its last request is the \<open>PutObject\<close> of the
  UTF-8 encoding of the summary the summarizer returned, into the bucket of the event
  (the one the audio object is in, see the start request), under the key
  \<open>summaries/<job name>_summary.txt\<close>, with content type \<open>text/plain\<close>; the store is the
  old one with that object added; and \<open>summary_file\<close> is \<open>s3://<bucket>/<that key>\<close>.
\<close>

theorem summary_written_under_derived_key:
  assumes "map_of (fst (lambda_handler env event s)) (lit ''status'') = Some (lit ''success'')"
  shows "\<exists>b key text summary data before.
           event_decoder event = Inr (JStr b, key)
         \<and> chat_completions_create env text = Inr (Some summary)
         \<and> str_encode_utf8 summary = Inr data
         \<and> calls (snd (lambda_handler env event s)) =
             calls s @ start_call env b key # before @
               [ChatCompletionsCreate (lit ''gpt-4o-mini'')
                  (lit ''Summarize medical consultations clearly and concisely.'') text 300,
                PutObject b (lit ''summaries/'' @ job_name env @ lit ''_summary.txt'') data (lit ''text/plain'')]
         \<and> objects (snd (lambda_handler env event s)) =
             (objects s)((b, lit ''summaries/'' @ job_name env @ lit ''_summary.txt'') \<mapsto>
                \<lparr>body = data, content_type = lit ''text/plain''\<rparr>)
         \<and> fst (lambda_handler env event s) =
             [(lit ''status'', lit ''success''),
              (lit ''summary_file'',
               lit ''s3://'' @ b @ lit ''/'' @ lit ''summaries/'' @ job_name env @ lit ''_summary.txt'')]"
proof -
  obtain loc where body: "try_body env event s = (Inr loc, snd (lambda_handler env event s))"
    using handler_success [OF assms] by blast
  then obtain b key tr where dec: "event_decoder event = Inr (JStr b, key)"
    and after: "after_transcription env b (s\<lparr>calls := calls s @ start_call env b key # tr\<rparr>)
                  = (Inr loc, snd (lambda_handler env event s))"
    using try_body_success_calls by blast
  let ?s1 = "s\<lparr>calls := calls s @ start_call env b key # tr\<rparr>"
  from after_transcription_success [OF after] obtain transcript summary data where
    chat: "chat_completions_create env transcript = Inr (Some summary)"
    and enc: "str_encode_utf8 summary = Inr data"
    and loc: "loc = s3_uri b (summary_key env)"
    and s': "snd (lambda_handler env event s) =
       ?s1\<lparr>calls := calls ?s1 @ [GetObject b (transcript_key env),
                      ChatCompletionsCreate (lit ''gpt-4o-mini'')
                        (lit ''Summarize medical consultations clearly and concisely.'') transcript 300,
                      PutObject b (summary_key env) data (lit ''text/plain'')],
            objects := (objects ?s1)((b, summary_key env) \<mapsto>
                      \<lparr>body = data, content_type = lit ''text/plain''\<rparr>)\<rparr>"
    by blast
  have c: "calls (snd (lambda_handler env event s)) =
             calls s @ start_call env b key # (tr @ [GetObject b (transcript_key env)]) @
               [ChatCompletionsCreate (lit ''gpt-4o-mini'')
                  (lit ''Summarize medical consultations clearly and concisely.'') transcript 300,
                PutObject b (lit ''summaries/'' @ job_name env @ lit ''_summary.txt'') data (lit ''text/plain'')]"
    unfolding s' by (simp add: summary_key_def)
  have ob: "objects (snd (lambda_handler env event s)) =
             (objects s)((b, lit ''summaries/'' @ job_name env @ lit ''_summary.txt'') \<mapsto>
                \<lparr>body = data, content_type = lit ''text/plain''\<rparr>)"
    unfolding s' by (simp add: summary_key_def)
  have "fst (lambda_handler env event s) = [(lit ''status'', lit ''success''), (lit ''summary_file'', loc)]"
    using handler_of_success [OF body] by (metis fst_conv)
  then have r: "fst (lambda_handler env event s) =
             [(lit ''status'', lit ''success''),
              (lit ''summary_file'',
               lit ''s3://'' @ b @ lit ''/'' @ lit ''summaries/'' @ job_name env @ lit ''_summary.txt'')]"
    using loc by (simp add: s3_uri_def summary_key_def)
  from dec chat enc c ob r show ?thesis by blast
qed

theorem summary_written_under_derived_key_witness:
  "map_of (fst (lambda_handler (scenario_env scenario_answers) scenario_event (scenario_state scenario_store)))
     (lit ''status'') = Some (lit ''success'')
   \<and> objects (snd (lambda_handler (scenario_env scenario_answers) scenario_event (scenario_state scenario_store)))
       (lit ''medrecs'', lit ''summaries/twilio-01234567_summary.txt'')
     = Some \<lparr>body = lit ''Patient has a mild fever.'', content_type = lit ''text/plain''\<rparr>
   \<and> (\<exists>b key text summary data before.
           event_decoder scenario_event = Inr (JStr b, key)
         \<and> chat_completions_create (scenario_env scenario_answers) text = Inr (Some summary)
         \<and> str_encode_utf8 summary = Inr data
         \<and> calls (snd (lambda_handler (scenario_env scenario_answers) scenario_event (scenario_state scenario_store))) =
             calls (scenario_state scenario_store) @ start_call (scenario_env scenario_answers) b key # before @
               [ChatCompletionsCreate (lit ''gpt-4o-mini'')
                  (lit ''Summarize medical consultations clearly and concisely.'') text 300,
                PutObject b (lit ''summaries/'' @ job_name (scenario_env scenario_answers) @ lit ''_summary.txt'') data (lit ''text/plain'')]
         \<and> objects (snd (lambda_handler (scenario_env scenario_answers) scenario_event (scenario_state scenario_store))) =
             (objects (scenario_state scenario_store))((b, lit ''summaries/'' @ job_name (scenario_env scenario_answers) @ lit ''_summary.txt'') \<mapsto>
                \<lparr>body = data, content_type = lit ''text/plain''\<rparr>)
         \<and> fst (lambda_handler (scenario_env scenario_answers) scenario_event (scenario_state scenario_store)) =
             [(lit ''status'', lit ''success''),
              (lit ''summary_file'',
               lit ''s3://'' @ b @ lit ''/'' @ lit ''summaries/'' @ job_name (scenario_env scenario_answers) @ lit ''_summary.txt'')])"
proof -
  have ok: "map_of (fst (lambda_handler (scenario_env scenario_answers) scenario_event (scenario_state scenario_store)))
     (lit ''status'') = Some (lit ''success'')"
    by (simp add: scenario_success)
  have ob: "objects (snd (lambda_handler (scenario_env scenario_answers) scenario_event (scenario_state scenario_store)))
       (lit ''medrecs'', lit ''summaries/twilio-01234567_summary.txt'')
     = Some \<lparr>body = lit ''Patient has a mild fever.'', content_type = lit ''text/plain''\<rparr>"
    by (simp add: scenario_success)
  show ?thesis
    using ok ob summary_written_under_derived_key [OF ok] by blast
qed

text \<open>
  C10. \<open>unquote_plus\<close> replaces every plus sign of the key by a space before it decodes
  the escapes. So a key without escapes comes back with each plus sign turned into a
  space, and a key that contains a plus sign never comes back unchanged, whatever else it
  contains: the decoder does not return such a key character for character.
\<close>

theorem plus_decodes_to_space:
  "unquote_plus k = unquote (map (\<lambda>c. if c = 43 then 32 else c) k)
   \<and> (37 \<notin> set k \<longrightarrow> unquote_plus k = map (\<lambda>c. if c = 43 then 32 else c) k)
   \<and> (43 \<in> set k \<longrightarrow> unquote_plus k \<noteq> k)
   \<and> (first_record event = Some (b, k) \<and> 43 \<in> set k
        \<longrightarrow> (\<exists>k'. event_decoder event = Inr (JStr b, k') \<and> k' \<noteq> k))"
  using unquote_plus_no_percent [of k] unquote_plus_changes_plus [of k]
    event_decoder_of_first_record [of event b k]
  by (auto simp: unquote_plus_def)

theorem plus_decodes_to_space_witness:
  "43 \<in> set (lit ''a+b.wav'') \<and> 37 \<notin> set (lit ''a+b.wav'')
   \<and> unquote_plus (lit ''a+b.wav'') = lit ''a b.wav''
   \<and> event_decoder (s3_event (lit ''medrecs'') (lit ''a+b.wav'')) = Inr (JStr (lit ''medrecs''), lit ''a b.wav'')"
proof -
  have p: "43 \<in> set (lit ''a+b.wav'')" and n: "37 \<notin> set (lit ''a+b.wav'')"
    by (simp_all add: lit_def)
  have "unquote_plus (lit ''a+b.wav'') = map (\<lambda>c. if c = 43 then 32 else c) (lit ''a+b.wav'')"
    using plus_decodes_to_space [of "lit ''a+b.wav''" "s3_event (lit ''medrecs'') (lit ''a+b.wav'')" "lit ''medrecs''"] n
    by blast
  then have u: "unquote_plus (lit ''a+b.wav'') = lit ''a b.wav''"
    by (simp add: lit_def)
  then show ?thesis using p n by (simp add: event_decoder_s3_event)
qed

end
